theory Spec2Isabelle
  imports Complex_Main "HOL-Library.AList"
begin

section \<open>PicoModal: a shallow embedding of picoModal.js\<close>

text \<open>
  The library is one closure over \<open>window\<close> and \<open>document\<close>.  Its effects are writes to
  the document (elements, their inline styles, classes, listeners), to the style objects
  the caller passed in, to the timer queue of the window and to the variables captured by
  the closures of one modal instance.  All of them are fields of one state record that
  every function takes and returns.  A JavaScript exception is the left summand of the
  result; the state that comes with it holds the writes made before the throw.

  The page is an HTML document with a body: \<open>document.body.appendChild\<close> takes a new
  element, an assignment to \<open>innerHTML\<close> parses any string, and an assignment to a
  property of \<open>elem.style\<close> is accepted, whatever the browser makes of the value.  The
  one call of the library that a caller's value can make throw is then the \<open>appendChild\<close>
  of \<open>html\<close>.
\<close>

subsection \<open>Values\<close>

text \<open>
  JavaScript numbers.  Finite numbers are exact rationals (IEEE rounding, the infinities
  and the negative zero are not modelled); the source multiplies by 100, divides by 2 and
  negates.
\<close>

datatype jsnum = Num rat | NaN

fun jsnum_mul :: "jsnum \<Rightarrow> jsnum \<Rightarrow> jsnum" where
  "jsnum_mul (Num a) (Num b) = Num (a * b)"
| "jsnum_mul _ _ = NaN"

fun jsnum_div :: "jsnum \<Rightarrow> jsnum \<Rightarrow> jsnum" where
  "jsnum_div (Num a) (Num b) = (if b = 0 then NaN else Num (a / b))"
| "jsnum_div _ _ = NaN"

fun jsnum_neg :: "jsnum \<Rightarrow> jsnum" where
  "jsnum_neg (Num a) = Num (- a)"
| "jsnum_neg NaN = NaN"

text \<open>The value of a style property: the source writes strings and numbers.\<close>

datatype sval = SNum jsnum | SStr string

text \<open>
  A style object is its own properties in insertion order; an assignment to a property
  that exists keeps its place, a new property goes last (\<open>AList.update\<close>).
\<close>

type_synonym styles = "(string \<times> sval) list"

text \<open>
  The argument of \<open>stylize\<close> is an object literal of the library (\<open>Lit\<close>, reachable from
  nowhere else) or an object of the caller, held in the heap \<open>objs\<close> of the state and
  named by its address (\<open>Ref\<close>), so that two options may share one object.
\<close>

datatype stylearg = Lit styles | Ref nat

text \<open>
  What \<open>html\<close> receives: markup, or a DOM node of the page (named by a number; the
  elements that \<open>make\<close> creates are not among them).
\<close>

datatype content = CStr string | CNode nat

datatype parent = PBody | PElem nat | PNone

text \<open>The two functions the library registers as click listeners.\<close>

datatype handler = CloseFn | NoopFn

text \<open>
  Values that the functions of the library return: \<open>Handle e\<close> is the interface object
  that \<open>make\<close> built around element \<open>e\<close>, \<open>Element e\<close> the DOM element itself, \<open>Facade\<close>
  the public object of the modal.
\<close>

datatype val = Undefined | Handle nat | Element nat | Facade

text \<open>
  The exceptions: a TypeError of the engine, and what \<open>removeChild\<close> and \<open>appendChild\<close>
  throw when the document refuses them.
\<close>

datatype error = TypeError | NotFoundError | HierarchyRequestError

text \<open>
  Where a node of the page is: where the page had it when it was handed to the library,
  under an element that \<open>make\<close> created, or nowhere since an assignment to \<open>innerHTML\<close>
  dropped it.
\<close>

datatype place = Original | Under nat | Removed

subsection \<open>The document, the options and the state\<close>

text \<open>
  An element that \<open>make\<close> created.  \<open>style\<close> is the list of the assignments
  \<open>elem.style[prop] = value\<close> made so far, oldest first: the source only ever writes to
  \<open>elem.style\<close>, and what a browser then holds for a property (its parsing of the value,
  the link between \<open>margin\<close> and \<open>marginLeft\<close>, \<open>cssText\<close>) is not a matter of the source.
\<close>

record elem =
  parentNode :: parent
  className :: string
  style :: "(string \<times> sval) list"
  innerHTML :: string
  listeners :: "handler list"

text \<open>
  The options object, with the types the library expects of each key; \<open>None\<close> is a key
  that is absent or \<open>undefined\<close>.  A style option is the address of the caller's style
  object in \<open>objs\<close>.
\<close>

record options =
  content :: "content option"
  width :: "jsnum option"
  overlayStyles :: "nat option"
  modalStyles :: "nat option"
  closeStyles :: "nat option"
  overlayClose :: "bool option"
  closeButton :: "bool option"
  closeHtml :: "content option"

text \<open>
  The two variables of one \<open>memoize\<close> closure.  \<open>runs\<close> is instrumentation: it counts how
  often the closure applied its callback, and nothing reads it.
\<close>

record memo =
  notCalled :: bool
  result :: val
  runs :: nat

text \<open>
  \<open>nodes\<close>: the elements created by \<open>document.createElement\<close>, an element being its index.
  \<open>objs\<close>: the style objects of the caller.  \<open>place\<close>: where each node of the page is.
  \<open>timers\<close>: the callbacks handed to \<open>window.setTimeout\<close>, each bound to its argument,
  oldest first; \<open>fired\<close>: those the event loop has run.
\<close>

record world =
  nodes :: "elem list"
  objs :: "nat \<Rightarrow> styles"
  place :: "nat \<Rightarrow> place"
  timers :: "(nat \<times> val) list"
  fired :: "(nat \<times> val) list"

text \<open>
  The variables of one call of \<open>picoModal\<close>.  The variables \<open>modalElem\<close>, \<open>shadowElem\<close>
  and \<open>closeElem\<close> hold a memoized function until \<open>destroy\<close> assigns \<open>undefined\<close> to
  them (\<open>..Var\<close> is then False); the memoized functions themselves live on in the
  accessors and in the bound argument of \<open>buildClose\<close>, so their cells are fields of
  their own.
\<close>

record state = world +
  opts :: options
  afterShowEvent :: "nat list"
  afterCloseEvent :: "nat list"
  afterCreateEvent :: "nat list"
  modalMemo :: memo
  shadowMemo :: memo
  closeMemo :: memo
  modalElemVar :: bool
  shadowElemVar :: bool
  closeElemVar :: bool

text \<open>
  What the source takes from the JavaScript engine and the browser: the string of a number,
  the number of a string, the rendered width of an element (\<open>elem.clientWidth\<close>, an
  integer that depends on the whole document: the elements and where the nodes of the page
  are), whether \<open>appendChild\<close> accepts a node of
  the page as a child of an element (it throws for a node that contains that element, as
  \<open>document.body\<close> does while the element is in the document, and for a node that
  cannot be a child at all, as a document), and whether elements have \<open>attachEvent\<close>.
\<close>

record engine =
  num_str :: "jsnum \<Rightarrow> string"
  str_num :: "string \<Rightarrow> jsnum"
  clientWidth :: "elem list \<Rightarrow> (nat \<Rightarrow> place) \<Rightarrow> nat \<Rightarrow> int"
  appendable :: "elem list \<Rightarrow> nat \<Rightarrow> nat \<Rightarrow> bool"
  attachEvent :: bool

subsection \<open>Sequencing with exceptions\<close>

type_synonym 'a comp = "state \<Rightarrow> (error + 'a) \<times> state"

definition ret :: "'a \<Rightarrow> 'a comp" where
  "ret x s = (Inr x, s)"

definition throw :: "error \<Rightarrow> 'a comp" where
  "throw e s = (Inl e, s)"

definition and_then :: "'a comp \<Rightarrow> ('a \<Rightarrow> 'b comp) \<Rightarrow> 'b comp" where
  "and_then m f s = (case m s of (Inl e, s') \<Rightarrow> (Inl e, s') | (Inr x, s') \<Rightarrow> f x s')"

text \<open>
  A method call \<open>v.m(...)\<close> on a value: only the interface objects of \<open>make\<close> have the
  methods, anything else throws a TypeError.
\<close>

fun call :: "val \<Rightarrow> (nat \<Rightarrow> 'a comp) \<Rightarrow> 'a comp" where
  "call (Handle h) m = m h"
| "call _ m = throw TypeError"

subsection \<open>memoize and observable\<close>

text \<open>
  \<open>memoize\<close>, given where the two variables of the closure live.  \<open>notCalled\<close> is cleared
  after the callback has returned, so a callback that throws would run again.
\<close>

definition memoize ::
  "(state \<Rightarrow> memo) \<Rightarrow> ((memo \<Rightarrow> memo) \<Rightarrow> state \<Rightarrow> state) \<Rightarrow> val comp \<Rightarrow> val comp" where
  "memoize cell cell_update callback s =
     (if notCalled (cell s) then
        (case callback (cell_update (\<lambda>m. m\<lparr>runs := Suc (runs m)\<rparr>) s) of
           (Inl e, s') \<Rightarrow> (Inl e, s')
         | (Inr r, s') \<Rightarrow> (Inr r, cell_update (\<lambda>m. m\<lparr>result := r, notCalled := False\<rparr>) s'))
      else (Inr (result (cell s)), s))"

text \<open>The loop of \<open>trigger\<close>: one \<open>setTimeout\<close> for each callback, in order.\<close>

primrec trigger_loop :: "nat list \<Rightarrow> val \<Rightarrow> (nat \<times> val) list \<Rightarrow> (nat \<times> val) list" where
  "trigger_loop [] modal ts = ts"
| "trigger_loop (c # cs) modal ts = trigger_loop cs modal (ts @ [(c, modal)])"

definition watch ::
  "((nat list \<Rightarrow> nat list) \<Rightarrow> state \<Rightarrow> state) \<Rightarrow> nat \<Rightarrow> val comp" where
  "watch callbacks_update callback s = (Inr Undefined, callbacks_update (\<lambda>cs. cs @ [callback]) s)"

definition trigger :: "(state \<Rightarrow> nat list) \<Rightarrow> val \<Rightarrow> val comp" where
  "trigger callbacks modal s =
     (Inr Undefined, s\<lparr>timers := trigger_loop (callbacks s) modal (timers s)\<rparr>)"

subsection \<open>make: the interface around one element\<close>

definition map_node :: "nat \<Rightarrow> (elem \<Rightarrow> elem) \<Rightarrow> state \<Rightarrow> state" where
  "map_node e f s = s\<lparr>nodes := (nodes s)[e := f (nodes s ! e)]\<rparr>"

definition make :: "nat option \<Rightarrow> val comp" where
  "make parent s =
     (Inr (Handle (length (nodes s))),
      s\<lparr>nodes := nodes s @
        [\<lparr>parentNode = (case parent of None \<Rightarrow> PBody | Some p \<Rightarrow> PElem p),
          className = [], style = [], innerHTML = [], listeners = []\<rparr>]\<rparr>)"

definition child :: "nat \<Rightarrow> val comp" where
  "child e = make (Some e)"

fun to_number :: "engine \<Rightarrow> sval \<Rightarrow> jsnum" where
  "to_number E (SNum n) = n"
| "to_number E (SStr x) = str_num E x"

text \<open>The first statement of \<open>stylize\<close>: \<open>styles.filter\<close> is written into the object given.\<close>

definition set_filter :: "engine \<Rightarrow> styles \<Rightarrow> styles" where
  "set_filter E st =
     (case map_of st ''opacity'' of
        None \<Rightarrow> st
      | Some v \<Rightarrow>
          AList.update ''filter''
            (SStr (''alpha(opacity='' @ num_str E (jsnum_mul (to_number E v) (Num 100)) @ '')''))
            st)"

text \<open>
  The \<open>for ... in\<close> loop of \<open>stylize\<close>: one assignment to \<open>elem.style\<close> for each property
  of the object, in the order of the object.
\<close>

definition apply_styles :: "styles \<Rightarrow> (string \<times> sval) list \<Rightarrow> (string \<times> sval) list" where
  "apply_styles st target = fold (\<lambda>(prop, v) assigned. assigned @ [(prop, v)]) st target"

definition stylize :: "engine \<Rightarrow> stylearg option \<Rightarrow> nat \<Rightarrow> val comp" where
  "stylize E styles e s =
     (let arg = (case styles of None \<Rightarrow> Lit [] | Some a \<Rightarrow> a);
          st = set_filter E (case arg of Lit l \<Rightarrow> l | Ref r \<Rightarrow> objs s r);
          s1 = (case arg of Lit l \<Rightarrow> s | Ref r \<Rightarrow> s\<lparr>objs := (objs s)(r := st)\<rparr>)
      in (Inr (Handle e), map_node e (\<lambda>n. n\<lparr>style := apply_styles st (style n)\<rparr>) s1))"

definition clazz :: "string \<Rightarrow> nat \<Rightarrow> val comp" where
  "clazz c e s = (Inr (Handle e), map_node e (\<lambda>n. n\<lparr>className := className n @ c\<rparr>) s)"

text \<open>
  An assignment to \<open>elem.innerHTML\<close> replaces the children of the element: the nodes of the
  page under it are dropped.  The builders assign to an element they have just made, so
  the model keeps no record of created elements lost here.
\<close>

definition set_innerHTML :: "nat \<Rightarrow> string \<Rightarrow> state \<Rightarrow> state" where
  "set_innerHTML e m s =
     (map_node e (\<lambda>x. x\<lparr>innerHTML := m\<rparr>) s)
       \<lparr>place := (\<lambda>n. if place s n = Under e then Removed else place s n)\<rparr>"

text \<open>
  \<open>html\<close>: a node is handed to \<open>appendChild\<close>, which throws when the document refuses
  it and otherwise moves the node from where it was to the end of the element; anything
  else is assigned to \<open>innerHTML\<close> (\<open>undefined\<close> becomes the text ``undefined'').
\<close>

definition html :: "engine \<Rightarrow> content option \<Rightarrow> nat \<Rightarrow> val comp" where
  "html E c e s =
     (case c of
        Some (CNode n) \<Rightarrow>
          if appendable E (nodes s) n e
          then (Inr (Handle e), s\<lparr>place := (place s)(n := Under e)\<rparr>)
          else (Inl HierarchyRequestError, s)
      | Some (CStr m) \<Rightarrow> (Inr (Handle e), set_innerHTML e m s)
      | None \<Rightarrow> (Inr (Handle e), set_innerHTML e ''undefined'' s))"

definition getWidth :: "engine \<Rightarrow> nat \<Rightarrow> jsnum comp" where
  "getWidth E e s = (Inr (Num (of_int (clientWidth E (nodes s) (place s) e))), s)"

text \<open>
  \<open>onClick\<close>: \<open>attachEvent\<close> where the element has it, \<open>addEventListener\<close> otherwise, which
  ignores a function that is registered already.  \<open>close\<close> is one function; the empty
  function of \<open>buildOverlay\<close> is a new one at each evaluation.
\<close>

definition onClick :: "engine \<Rightarrow> handler \<Rightarrow> nat \<Rightarrow> val comp" where
  "onClick E callback e s =
     (Inr (Handle e),
      map_node e (\<lambda>n. n\<lparr>listeners :=
        (if \<not> attachEvent E \<and> callback = CloseFn \<and> CloseFn \<in> set (listeners n)
         then listeners n else listeners n @ [callback])\<rparr>) s)"

text \<open>\<open>document.body.removeChild\<close> throws when the element is not a child of the body.\<close>

definition destroy_elem :: "nat \<Rightarrow> val comp" where
  "destroy_elem e s =
     (if parentNode (nodes s ! e) = PBody
      then (Inr Undefined, map_node e (\<lambda>n. n\<lparr>parentNode := PNone\<rparr>) s)
      else (Inl NotFoundError, s))"

definition hide :: "nat \<Rightarrow> val comp" where
  "hide e s =
     (Inr Undefined,
      map_node e (\<lambda>n. n\<lparr>style := style n @ [(''display'', SStr ''none'')]\<rparr>) s)"

definition show_elem :: "nat \<Rightarrow> val comp" where
  "show_elem e s =
     (Inr Undefined,
      map_node e (\<lambda>n. n\<lparr>style := style n @ [(''display'', SStr ''block'')]\<rparr>) s)"

subsection \<open>The builders\<close>

definition getOption :: "options \<Rightarrow> (options \<Rightarrow> 'a option) \<Rightarrow> 'a \<Rightarrow> 'a" where
  "getOption options opt defaultValue =
     (case opt options of None \<Rightarrow> defaultValue | Some v \<Rightarrow> v)"

text \<open>A call of \<open>getOption\<close> inside a sequence: it reads the options of the instance.\<close>

definition read_option :: "(options \<Rightarrow> 'a option) \<Rightarrow> 'a \<Rightarrow> 'a comp" where
  "read_option opt defaultValue s = (Inr (getOption (opts s) opt defaultValue), s)"

definition buildOverlay :: "engine \<Rightarrow> val comp" where
  "buildOverlay E =
     and_then (make None) (\<lambda>a.
     and_then (call a (clazz ''pico-overlay'')) (\<lambda>b.
     and_then (call b (stylize E (Some (Lit
       [(''display'', SStr ''block''), (''position'', SStr ''fixed''),
        (''top'', SStr ''0px''), (''left'', SStr ''0px''),
        (''height'', SStr ''100%''), (''width'', SStr ''100%''),
        (''zIndex'', SNum (Num 10000))])))) (\<lambda>c.
     and_then (read_option (\<lambda>x. map_option Ref (overlayStyles x))
       (Lit [(''opacity'', SNum (Num (1 / 2))), (''background'', SStr ''#000'')])) (\<lambda>st.
     and_then (call c (stylize E (Some st))) (\<lambda>d.
     and_then (read_option overlayClose True) (\<lambda>oc.
     call d (onClick E (if oc then CloseFn else NoopFn))))))))"

text \<open>The initialiser of the variable \<open>elem\<close> of \<open>buildModal\<close>.\<close>

definition buildModal_elem :: "engine \<Rightarrow> val comp" where
  "buildModal_elem E =
     and_then (make None) (\<lambda>a.
     and_then (call a (clazz ''pico-content'')) (\<lambda>b.
     and_then (call b (stylize E (Some (Lit
       [(''display'', SStr ''block''), (''position'', SStr ''fixed''),
        (''zIndex'', SNum (Num 10001)), (''left'', SStr ''50%''),
        (''top'', SStr ''50px'')])))) (\<lambda>c.
     and_then (read_option (\<lambda>x. map_option Some (content x)) None) (\<lambda>ct.
     call c (html E ct)))))"

definition buildModal :: "engine \<Rightarrow> val comp" where
  "buildModal E =
     and_then (buildModal_elem E) (\<lambda>elem.
     and_then (call elem (getWidth E)) (\<lambda>measured.
     and_then (read_option width measured) (\<lambda>width.
     and_then (call elem (stylize E (Some (Lit
       [(''width'', SStr (num_str E width @ ''px'')),
        (''margin'', SStr (''0 0 0 '' @
            (num_str E (jsnum_neg (jsnum_div width (Num 2))) @ ''px'')))])))) (\<lambda>r.
     and_then (read_option (\<lambda>x. map_option Ref (modalStyles x))
       (Lit [(''backgroundColor'', SStr ''white''), (''padding'', SStr ''20px''),
             (''borderRadius'', SStr ''5px'')])) (\<lambda>st.
     and_then (call r (stylize E (Some st))) (\<lambda>u.
     ret elem))))))"

text \<open>\<open>buildClose\<close>; its first argument is the memoized builder of the content box.\<close>

definition buildClose :: "engine \<Rightarrow> val comp \<Rightarrow> val comp" where
  "buildClose E elem =
     and_then (read_option closeButton True) (\<lambda>cb.
     if cb then
       and_then elem (\<lambda>m.
       and_then (call m child) (\<lambda>a.
       and_then (read_option closeHtml (CStr ''&#xD7;'')) (\<lambda>h.
       and_then (call a (html E (Some h))) (\<lambda>b.
       and_then (call b (clazz ''pico-close'')) (\<lambda>c.
       and_then (read_option (\<lambda>x. map_option Ref (closeStyles x))
         (Lit [(''borderRadius'', SStr ''2px''), (''cursor'', SStr ''pointer''),
               (''height'', SStr ''15px''), (''width'', SStr ''15px''),
               (''position'', SStr ''absolute''), (''top'', SStr ''5px''),
               (''right'', SStr ''5px''), (''fontSize'', SStr ''16px''),
               (''textAlign'', SStr ''center''), (''lineHeight'', SStr ''15px''),
               (''background'', SStr ''#CCC'')])) (\<lambda>st.
       and_then (call c (stylize E (Some st))) (\<lambda>d.
       call d (onClick E CloseFn))))))))
     else ret Undefined)"

text \<open>\<open>builder().elem\<close>: reading a property of \<open>undefined\<close> throws.\<close>

fun elem_of :: "val \<Rightarrow> val comp" where
  "elem_of (Handle e) = ret (Element e)"
| "elem_of Undefined = throw TypeError"
| "elem_of _ = ret Undefined"

definition buildElemAccessor :: "val comp \<Rightarrow> val comp" where
  "buildElemAccessor builder = and_then builder elem_of"

subsection \<open>picoModal\<close>

datatype arg = AStr string | ANode nat | AOptions options

text \<open>The state right after \<open>picoModal(options)\<close> has returned, in a given world.\<close>

definition picoModal :: "arg \<Rightarrow> world \<Rightarrow> state" where
  "picoModal a w =
     \<lparr>nodes = nodes w, objs = objs w, place = place w, timers = timers w, fired = fired w,
      opts = (case a of
          AStr x \<Rightarrow> \<lparr>content = Some (CStr x), width = None, overlayStyles = None,
            modalStyles = None, closeStyles = None, overlayClose = None, closeButton = None,
            closeHtml = None\<rparr>
        | ANode n \<Rightarrow> \<lparr>content = Some (CNode n), width = None, overlayStyles = None,
            modalStyles = None, closeStyles = None, overlayClose = None, closeButton = None,
            closeHtml = None\<rparr>
        | AOptions x \<Rightarrow> x),
      afterShowEvent = [], afterCloseEvent = [], afterCreateEvent = [],
      modalMemo = \<lparr>notCalled = True, result = Undefined, runs = 0\<rparr>,
      shadowMemo = \<lparr>notCalled = True, result = Undefined, runs = 0\<rparr>,
      closeMemo = \<lparr>notCalled = True, result = Undefined, runs = 0\<rparr>,
      modalElemVar = True, shadowElemVar = True, closeElemVar = True\<rparr>"

text \<open>The three memoized functions, as first bound to the variables.\<close>

definition modalElem :: "engine \<Rightarrow> val comp" where
  "modalElem E =
     memoize modalMemo modalMemo_update
       (and_then (buildModal E) (\<lambda>elem.
        and_then (trigger afterCreateEvent Facade) (\<lambda>u.
        ret elem)))"

definition shadowElem :: "engine \<Rightarrow> val comp" where
  "shadowElem E = memoize shadowMemo shadowMemo_update (buildOverlay E)"

definition closeElem :: "engine \<Rightarrow> val comp" where
  "closeElem E = memoize closeMemo closeMemo_update (buildClose E (modalElem E))"

text \<open>A call through one of the three variables: \<open>undefined\<close> is not a function.\<close>

definition call_var :: "(state \<Rightarrow> bool) \<Rightarrow> 'a comp \<Rightarrow> 'a comp" where
  "call_var var f s = (if var s then f s else throw TypeError s)"

definition close :: "engine \<Rightarrow> val comp" where
  "close E =
     and_then (call_var shadowElemVar (shadowElem E)) (\<lambda>a.
     and_then (call a hide) (\<lambda>u.
     and_then (call_var modalElemVar (modalElem E)) (\<lambda>b.
     and_then (call b hide) (\<lambda>v.
     trigger afterCloseEvent Facade))))"

text \<open>\<open>returnIface\<close>, for a method called on the facade.\<close>

definition returnIface :: "val comp \<Rightarrow> val comp" where
  "returnIface callback = and_then callback (\<lambda>u. ret Facade)"

definition iface_show :: "engine \<Rightarrow> val comp" where
  "iface_show E =
     and_then (call_var shadowElemVar (shadowElem E)) (\<lambda>a.
     and_then (call a show_elem) (\<lambda>u.
     and_then (call_var closeElemVar (closeElem E)) (\<lambda>c.
     and_then (call_var modalElemVar (modalElem E)) (\<lambda>b.
     and_then (call b show_elem) (\<lambda>v.
     and_then (trigger afterShowEvent Facade) (\<lambda>w.
     ret Facade))))))"

text \<open>
  \<open>destroy\<close>: the value assigned to \<open>modalElem\<close> and to \<open>shadowElem\<close> is what the
  \<open>destroy\<close> of the element returned, which is \<open>undefined\<close>.
\<close>

definition iface_destroy :: "engine \<Rightarrow> val comp" where
  "iface_destroy E =
     and_then (call_var modalElemVar (modalElem E)) (\<lambda>a.
     and_then (call a destroy_elem) (\<lambda>u.
     and_then (\<lambda>s. (Inr Undefined, s\<lparr>modalElemVar := False\<rparr>)) (\<lambda>x.
     and_then (call_var shadowElemVar (shadowElem E)) (\<lambda>b.
     and_then (call b destroy_elem) (\<lambda>v.
     and_then (\<lambda>s. (Inr Undefined, s\<lparr>shadowElemVar := False\<rparr>)) (\<lambda>y.
     (\<lambda>s. (Inr Undefined, s\<lparr>closeElemVar := False\<rparr>))))))))"

subsection \<open>The page: clicks and the event loop\<close>

fun run_handler :: "engine \<Rightarrow> handler \<Rightarrow> state \<Rightarrow> state" where
  "run_handler E CloseFn s = snd (close E s)"
| "run_handler E NoopFn s = s"

text \<open>A click on an element runs its listeners in order; what a listener throws is lost.\<close>

definition click :: "engine \<Rightarrow> nat \<Rightarrow> state \<Rightarrow> state" where
  "click E e s = fold (run_handler E) (listeners (nodes s ! e)) s"

text \<open>One turn of the event loop runs the oldest timer.\<close>

definition tick :: "state \<Rightarrow> state" where
  "tick s = (case timers s of [] \<Rightarrow> s | t # ts \<Rightarrow> s\<lparr>timers := ts, fired := fired s @ [t]\<rparr>)"

text \<open>
  What can happen to one modal: the methods of its facade, a click on its overlay or on
  its close button once they exist, and a turn of the event loop.
\<close>

datatype op =
    Show | Close | Destroy
  | ModalElem | CloseElem | OveralElem
  | AfterCreate nat | AfterShow nat | AfterClose nat
  | ClickOverlay | ClickClose | Tick

definition click_on :: "engine \<Rightarrow> memo \<Rightarrow> val comp" where
  "click_on E m s =
     (case result m of
        Handle e \<Rightarrow> (Inr Undefined, if notCalled m then s else click E e s)
      | _ \<Rightarrow> (Inr Undefined, s))"

fun step :: "engine \<Rightarrow> op \<Rightarrow> val comp" where
  "step E Show = iface_show E"
| "step E Close = returnIface (close E)"
| "step E Destroy = iface_destroy E"
| "step E ModalElem = buildElemAccessor (modalElem E)"
| "step E CloseElem = buildElemAccessor (closeElem E)"
| "step E OveralElem = buildElemAccessor (shadowElem E)"
| "step E (AfterCreate c) = returnIface (watch afterCreateEvent_update c)"
| "step E (AfterShow c) = returnIface (watch afterShowEvent_update c)"
| "step E (AfterClose c) = returnIface (watch afterCloseEvent_update c)"
| "step E ClickOverlay = (\<lambda>s. click_on E (shadowMemo s) s)"
| "step E ClickClose = (\<lambda>s. click_on E (closeMemo s) s)"
| "step E Tick = (\<lambda>s. (Inr Undefined, tick s))"

definition run :: "engine \<Rightarrow> op list \<Rightarrow> state \<Rightarrow> state" where
  "run E ops s = fold (\<lambda>x t. snd (step E x t)) ops s"

subsection \<open>A concrete engine and page, for evaluation\<close>

text \<open>
  An engine and a page to evaluate the definitions on.  The numbers of the model are the
  rationals; the engine prints and reads as ECMAScript does on the part of them that the
  evaluations below use, and is a stand-in beyond it: \<open>sample_num_str\<close> agrees with
  \<open>Number::toString\<close> on the integers of magnitude below \<open>10^21\<close> and on these plus one half
  (it prints any other rational as a fraction, which no engine does), and
  \<open>sample_str_num\<close> agrees with \<open>ToNumber\<close> on the strings of decimal digits (it reads any
  other string as NaN, where \<open>ToNumber\<close> also reads signs, fractions, exponents and white
  space).  The rendered width is eight pixels for each character of markup.  Node 0 of
  the page is \<open>document.body\<close>: \<open>appendChild\<close> refuses it for an element that is in the
  document, and accepts every other node.  Elements have no \<open>attachEvent\<close>.
\<close>

fun nat_str :: "nat \<Rightarrow> string" where
  "nat_str n =
     (if n < 10 then [''0123456789'' ! n]
      else nat_str (n div 10) @ [''0123456789'' ! (n mod 10)])"

declare nat_str.simps [simp del]

definition int_str :: "int \<Rightarrow> string" where
  "int_str i = (if i < 0 then CHR ''-'' # nat_str (nat (- i)) else nat_str (nat i))"

fun sample_num_str :: "jsnum \<Rightarrow> string" where
  "sample_num_str NaN = ''NaN''"
| "sample_num_str (Num r) =
     (case quotient_of r of (n, d) \<Rightarrow>
        if d = 1 then int_str n
        else if d = 2 then
          (if n < 0 then ''-'' else []) @ nat_str (nat \<bar>n\<bar> div 2) @ ''.5''
        else int_str n @ ''/'' @ int_str d)"

definition digit_of :: "char \<Rightarrow> nat option" where
  "digit_of c =
     map_of [(CHR ''0'', 0), (CHR ''1'', 1), (CHR ''2'', 2), (CHR ''3'', 3), (CHR ''4'', 4),
             (CHR ''5'', 5), (CHR ''6'', 6), (CHR ''7'', 7), (CHR ''8'', 8), (CHR ''9'', 9)] c"

definition sample_str_num :: "string \<Rightarrow> jsnum" where
  "sample_str_num x =
     (case those (map digit_of x) of
        None \<Rightarrow> NaN
      | Some ds \<Rightarrow> Num (of_nat (foldl (\<lambda>a d. 10 * a + d) 0 ds)))"

text \<open>
  Whether a created element is in the document: the chain of its parents ends at the
  body.  The first argument bounds the length of the chain.
\<close>

fun under_body :: "nat \<Rightarrow> elem list \<Rightarrow> nat \<Rightarrow> bool" where
  "under_body 0 ns e \<longleftrightarrow> False"
| "under_body (Suc k) ns e \<longleftrightarrow>
     e < length ns \<and>
     (case parentNode (ns ! e) of PBody \<Rightarrow> True | PElem p \<Rightarrow> under_body k ns p | PNone \<Rightarrow> False)"

definition sample_engine :: engine where
  "sample_engine =
     \<lparr>num_str = sample_num_str, str_num = sample_str_num,
      clientWidth = (\<lambda>ns pl e. 8 * int (length (innerHTML (ns ! e)))),
      appendable = (\<lambda>ns n e. n \<noteq> 0 \<or> \<not> under_body (length ns) ns e),
      attachEvent = False\<rparr>"

definition empty_page :: world where
  "empty_page =
     \<lparr>nodes = [], objs = (\<lambda>r. []), place = (\<lambda>n. Original), timers = [], fired = []\<rparr>"

text \<open>Options with a string content and nothing else, and a page with one style object.\<close>

definition plain_options :: "string \<Rightarrow> options" where
  "plain_options x =
     \<lparr>content = Some (CStr x), width = None, overlayStyles = None, modalStyles = None,
      closeStyles = None, overlayClose = None, closeButton = None, closeHtml = None\<rparr>"

definition page_with :: "styles \<Rightarrow> world" where
  "page_with st =
     \<lparr>nodes = [], objs = (\<lambda>r. if r = 0 then st else []), place = (\<lambda>n. Original),
      timers = [], fired = []\<rparr>"

subsection \<open>Auxiliary notions for the proofs\<close>

text \<open>
  What the first run of the memoized builder of the content box hands to
  \<open>window.setTimeout\<close>: the after-create callbacks, each bound to the facade.
\<close>

definition created :: "state \<Rightarrow> (nat \<times> val) list" where
  "created s =
     (if notCalled (modalMemo s) then map (\<lambda>c. (c, Facade)) (afterCreateEvent s) else [])"

text \<open>
  The latest assignment to the inline style of the element behind a value, if it is a
  handle of the page and its style has been assigned to.
\<close>

definition last_style :: "state \<Rightarrow> val \<Rightarrow> (string \<times> sval) option" where
  "last_style s v =
     (case v of
        Handle e \<Rightarrow>
          if e < length (nodes s) \<and> style (nodes s ! e) \<noteq> []
          then Some (last (style (nodes s ! e))) else None
      | _ \<Rightarrow> None)"

text \<open>
  Whether \<open>html\<close> returns for a content: markup always, a node when \<open>appendChild\<close> takes
  it.  A content is accepted when \<open>html\<close> returns for it on every element; the options are,
  when \<open>content\<close> and \<open>closeHtml\<close> are.
\<close>

fun can_set :: "engine \<Rightarrow> elem list \<Rightarrow> content option \<Rightarrow> nat \<Rightarrow> bool" where
  "can_set E ns (Some (CNode n)) e \<longleftrightarrow> appendable E ns n e"
| "can_set E ns c e \<longleftrightarrow> True"

definition accepted :: "engine \<Rightarrow> content option \<Rightarrow> bool" where
  "accepted E c \<longleftrightarrow> (\<forall>ns e. can_set E ns c e)"

definition accepts :: "engine \<Rightarrow> options \<Rightarrow> bool" where
  "accepts E x \<longleftrightarrow> accepted E (content x) \<and> accepted E (closeHtml x)"

text \<open>
  The invariant of one instance.  A memoized builder that has returned holds the handle of
  an element of the page with the class and the listener its builder gave it; the content
  box and the overlay are children of the body until \<open>destroy\<close> and have no parent after
  it; the three variables are defined together.
\<close>

fun modal_node :: "elem list \<Rightarrow> bool \<Rightarrow> val \<Rightarrow> bool" where
  "modal_node ns var (Handle m) \<longleftrightarrow>
     m < length ns \<and> className (ns ! m) = ''pico-content'' \<and>
     parentNode (ns ! m) = (if var then PBody else PNone)"
| "modal_node ns var v \<longleftrightarrow> False"

fun shadow_node :: "elem list \<Rightarrow> options \<Rightarrow> bool \<Rightarrow> val \<Rightarrow> bool" where
  "shadow_node ns x var (Handle h) \<longleftrightarrow>
     h < length ns \<and> className (ns ! h) = ''pico-overlay'' \<and>
     listeners (ns ! h) = [if getOption x overlayClose True then CloseFn else NoopFn] \<and>
     parentNode (ns ! h) = (if var then PBody else PNone)"
| "shadow_node ns x var v \<longleftrightarrow> False"

fun close_node :: "elem list \<Rightarrow> val \<Rightarrow> val \<Rightarrow> bool" where
  "close_node ns (Handle m) (Handle c) \<longleftrightarrow>
     c < length ns \<and> className (ns ! c) = ''pico-close'' \<and>
     listeners (ns ! c) = [CloseFn] \<and> parentNode (ns ! c) = PElem m"
| "close_node ns u v \<longleftrightarrow> False"

definition modal_ok :: "state \<Rightarrow> bool" where
  "modal_ok s \<longleftrightarrow>
     notCalled (modalMemo s) \<or> modal_node (nodes s) (modalElemVar s) (result (modalMemo s))"

definition shadow_ok :: "state \<Rightarrow> bool" where
  "shadow_ok s \<longleftrightarrow>
     notCalled (shadowMemo s) \<or>
     shadow_node (nodes s) (opts s) (shadowElemVar s) (result (shadowMemo s))"

definition close_ok :: "state \<Rightarrow> bool" where
  "close_ok s \<longleftrightarrow>
     (if notCalled (closeMemo s) then result (closeMemo s) = Undefined
      else if getOption (opts s) closeButton True then
        \<not> notCalled (modalMemo s) \<and>
        close_node (nodes s) (result (modalMemo s)) (result (closeMemo s))
      else result (closeMemo s) = Undefined)"

definition vars_ok :: "state \<Rightarrow> bool" where
  "vars_ok s \<longleftrightarrow>
     shadowElemVar s = modalElemVar s \<and> closeElemVar s = modalElemVar s \<and>
     (modalElemVar s \<or> \<not> notCalled (modalMemo s) \<and> \<not> notCalled (shadowMemo s))"

definition inv :: "state \<Rightarrow> bool" where
  "inv s \<longleftrightarrow> modal_ok s \<and> shadow_ok s \<and> close_ok s \<and> vars_ok s"



text \<open>Two lists of elements that agree on class, listeners and parent, index by index.\<close>

definition same_shape :: "elem list \<Rightarrow> elem list \<Rightarrow> bool" where
  "same_shape ns ns' \<longleftrightarrow>
     length ns' = length ns \<and>
     (\<forall>i < length ns. className (ns' ! i) = className (ns ! i) \<and>
        listeners (ns' ! i) = listeners (ns ! i) \<and>
        parentNode (ns' ! i) = parentNode (ns ! i))"

text \<open>
  What a step may do to the configuration: the options stay as they are, and a style
  object is either as it was or has had its \<open>filter\<close> written by \<open>stylize\<close>.
\<close>

definition frame :: "engine \<Rightarrow> state \<Rightarrow> state \<Rightarrow> bool" where
  "frame E s s' \<longleftrightarrow>
     opts s' = opts s \<and> (\<forall>r. objs s' r = objs s r \<or> objs s' r = set_filter E (objs s r))"

text \<open>A computation keeps a property of the state, whatever it returns or throws.\<close>

definition preserves :: "(state \<Rightarrow> bool) \<Rightarrow> 'a comp \<Rightarrow> bool" where
  "preserves P m \<longleftrightarrow> (\<forall>s. P s \<longrightarrow> P (snd (m s)))"

text \<open>
  What \<open>show\<close>, \<open>close\<close> and the builders may write to: the elements, the style objects,
  the places of the nodes of the page, the timer queue and the three memo cells.
\<close>

definition confined :: "state \<Rightarrow> state \<Rightarrow> bool" where
  "confined s t \<longleftrightarrow>
     t = s\<lparr>nodes := nodes t, objs := objs t, place := place t, timers := timers t,
        modalMemo := modalMemo t, shadowMemo := shadowMemo t, closeMemo := closeMemo t\<rparr>"

text \<open>What \<open>removeChild\<close> does to the list of elements.\<close>

definition detach :: "nat \<Rightarrow> elem list \<Rightarrow> elem list" where
  "detach e ns = ns[e := (ns ! e)\<lparr>parentNode := PNone\<rparr>]"

text \<open>
  What every step but \<open>destroy\<close> keeps, seen from a state \<open>s0\<close>: the invariant, the frame
  and the three variables.
\<close>

definition stays :: "engine \<Rightarrow> state \<Rightarrow> state \<Rightarrow> bool" where
  "stays E s0 t \<longleftrightarrow> inv t \<and> frame E s0 t \<and> modalElemVar t = modalElemVar s0"

section \<open>Properties\<close>

subsection \<open>The builders in closed form\<close>

lemmas comp_defs = ret_def throw_def and_then_def read_option_def
lemmas meth_defs = make_def child_def stylize_def clazz_def html_def set_innerHTML_def
  getWidth_def onClick_def map_node_def

lemma trigger_loop_eq: "trigger_loop cs m ts = ts @ map (\<lambda>c. (c, m)) cs"
  by (induction cs arbitrary: ts) simp_all

lemma apply_styles_eq: "apply_styles st target = target @ st"
  unfolding apply_styles_def by (induction st arbitrary: target) auto

lemma buildOverlay_run:
  obtains n ob where
    "buildOverlay E s = (Inr (Handle (length (nodes s))), s\<lparr>nodes := nodes s @ [n], objs := ob\<rparr>)"
    "parentNode n = PBody" "className n = ''pico-overlay''"
    "listeners n = [if getOption (opts s) overlayClose True then CloseFn else NoopFn]"
    "\<forall>r. ob r = objs s r \<or> ob r = set_filter E (objs s r)"
proof (rule that [where n = "last (nodes (snd (buildOverlay E s)))" and ob = "objs (snd (buildOverlay E s))"])
  show "buildOverlay E s = (Inr (Handle (length (nodes s))), s\<lparr>nodes := nodes s @ [last (nodes (snd (buildOverlay E s)))], objs := objs (snd (buildOverlay E s))\<rparr>)"
    unfolding buildOverlay_def
    by (cases "overlayStyles (opts s)") (simp_all add: comp_defs meth_defs getOption_def Let_def)
  show "parentNode (last (nodes (snd (buildOverlay E s)))) = PBody"
    unfolding buildOverlay_def
    by (cases "overlayStyles (opts s)") (simp_all add: comp_defs meth_defs getOption_def Let_def)
  show "className (last (nodes (snd (buildOverlay E s)))) = ''pico-overlay''"
    unfolding buildOverlay_def
    by (cases "overlayStyles (opts s)") (simp_all add: comp_defs meth_defs getOption_def Let_def)
  show "listeners (last (nodes (snd (buildOverlay E s)))) = [if getOption (opts s) overlayClose True then CloseFn else NoopFn]"
    unfolding buildOverlay_def
    by (cases "overlayStyles (opts s)") (simp_all add: comp_defs meth_defs getOption_def Let_def)
  show "\<forall>r. objs (snd (buildOverlay E s)) r = objs s r \<or> objs (snd (buildOverlay E s)) r = set_filter E (objs s r)"
    unfolding buildOverlay_def
    by (cases "overlayStyles (opts s)") (simp_all add: comp_defs meth_defs getOption_def Let_def)
qed

lemma accepted_can_set: "accepted E c \<Longrightarrow> can_set E ns c e"
  by (simp add: accepted_def)

lemma html_run:
  "html E c e s = (if can_set E (nodes s) c e then Inr (Handle e) else Inl HierarchyRequestError,
     snd (html E c e s))"
  by (cases c) (simp_all add: html_def split: content.splits)

text \<open>The initialiser of \<open>elem\<close> in \<open>buildModal\<close>: the element is made whether or not \<open>html\<close> throws\<close>

lemma buildModal_elem_run:
  obtains n pl where
    "buildModal_elem E s =
       (if can_set E (nodes s @ [n]) (content (opts s)) (length (nodes s))
        then Inr (Handle (length (nodes s))) else Inl HierarchyRequestError,
        s\<lparr>nodes := nodes s @ [n], place := pl\<rparr>)"
    "parentNode n = PBody" "className n = ''pico-content''" "listeners n = []"
    "style n = [(''display'', SStr ''block''), (''position'', SStr ''fixed''),
        (''zIndex'', SNum (Num 10001)), (''left'', SStr ''50%''), (''top'', SStr ''50px'')]"
proof (rule that [where n = "last (nodes (snd (buildModal_elem E s)))" and pl = "place (snd (buildModal_elem E s))"])
  note defs = buildModal_elem_def comp_defs meth_defs getOption_def Let_def set_filter_def apply_styles_eq
  show "buildModal_elem E s =
       (if can_set E (nodes s @ [last (nodes (snd (buildModal_elem E s)))]) (content (opts s)) (length (nodes s))
        then Inr (Handle (length (nodes s))) else Inl HierarchyRequestError,
        s\<lparr>nodes := nodes s @ [last (nodes (snd (buildModal_elem E s)))], place := place (snd (buildModal_elem E s))\<rparr>)"
    by (simp add: defs split: option.splits content.splits)
  show "parentNode (last (nodes (snd (buildModal_elem E s)))) = PBody"
    by (simp add: defs split: option.splits content.splits)
  show "className (last (nodes (snd (buildModal_elem E s)))) = ''pico-content''"
    by (simp add: defs split: option.splits content.splits)
  show "listeners (last (nodes (snd (buildModal_elem E s)))) = []"
    by (simp add: defs split: option.splits content.splits)
  show "style (last (nodes (snd (buildModal_elem E s)))) = [(''display'', SStr ''block''), (''position'', SStr ''fixed''),
        (''zIndex'', SNum (Num 10001)), (''left'', SStr ''50%''), (''top'', SStr ''50px'')]"
    by (simp add: defs split: option.splits content.splits)
qed

lemma not_accepted: "\<not> appendable E ns n e \<Longrightarrow> \<not> accepted E (Some (CNode n))"
  by (auto simp add: accepted_def)

lemma buildModal_run:
  obtains n ob pl r where
    "buildModal E s = (r, s\<lparr>nodes := nodes s @ [n], objs := ob, place := pl\<rparr>)"
    "parentNode n = PBody" "className n = ''pico-content''" "listeners n = []"
    "\<forall>r. ob r = objs s r \<or> ob r = set_filter E (objs s r)"
    "r = Inr (Handle (length (nodes s))) \<or>
     r = Inl HierarchyRequestError \<and> \<not> accepted E (content (opts s))"
proof -
  obtain k pl0 where k: "buildModal_elem E s =
       (if can_set E (nodes s @ [k]) (content (opts s)) (length (nodes s))
        then Inr (Handle (length (nodes s))) else Inl HierarchyRequestError,
        s\<lparr>nodes := nodes s @ [k], place := pl0\<rparr>)"
     "parentNode k = PBody" "className k = ''pico-content''" "listeners k = []"
    by (rule buildModal_elem_run [where E = E and s = s])
  note defs = buildModal_def k comp_defs meth_defs getOption_def Let_def
  have na: "\<not> accepted E (content (opts s))"
    if "\<not> can_set E (nodes s @ [k]) (content (opts s)) (length (nodes s))"
    using that accepted_can_set by blast
  show ?thesis
  proof (rule that [where n = "last (nodes (snd (buildModal E s)))" and ob = "objs (snd (buildModal E s))"
        and pl = "place (snd (buildModal E s))" and r = "fst (buildModal E s)"])
    show "buildModal E s = (fst (buildModal E s), s\<lparr>nodes := nodes s @ [last (nodes (snd (buildModal E s)))], objs := objs (snd (buildModal E s)), place := place (snd (buildModal E s))\<rparr>)"
      by (cases "modalStyles (opts s)") (simp_all add: defs)
    show "parentNode (last (nodes (snd (buildModal E s)))) = PBody"
      by (cases "modalStyles (opts s)") (simp_all add: defs)
    show "className (last (nodes (snd (buildModal E s)))) = ''pico-content''"
      by (cases "modalStyles (opts s)") (simp_all add: defs)
    show "listeners (last (nodes (snd (buildModal E s)))) = []"
      by (cases "modalStyles (opts s)") (simp_all add: defs)
    show "\<forall>r. objs (snd (buildModal E s)) r = objs s r \<or> objs (snd (buildModal E s)) r = set_filter E (objs s r)"
      by (cases "modalStyles (opts s)") (simp_all add: defs)
    show "fst (buildModal E s) = Inr (Handle (length (nodes s))) \<or>
        fst (buildModal E s) = Inl HierarchyRequestError \<and> \<not> accepted E (content (opts s))"
      using na by (cases "modalStyles (opts s)") (simp_all add: defs)
  qed
qed

text \<open>buildClose, once its first argument has returned the handle of the content box\<close>

lemma buildClose_run:
  assumes "getOption (opts s) closeButton True" "el s = (Inr (Handle m), s1)" "opts s1 = opts s"
  obtains c ob pl r where
    "buildClose E el s = (r, s1\<lparr>nodes := nodes s1 @ [c], objs := ob, place := pl\<rparr>)"
    "parentNode c = PElem m"
    "r = Inr (Handle (length (nodes s1))) \<and> className c = ''pico-close'' \<and> listeners c = [CloseFn] \<or>
     r = Inl HierarchyRequestError \<and> \<not> accepted E (closeHtml (opts s))"
    "\<forall>r. ob r = objs s1 r \<or> ob r = set_filter E (objs s1 r)"
proof (rule that [where c = "last (nodes (snd (buildClose E el s)))" and ob = "objs (snd (buildClose E el s))"
      and pl = "place (snd (buildClose E el s))" and r = "fst (buildClose E el s)"])
  note defs = buildClose_def comp_defs meth_defs getOption_def Let_def
  show "buildClose E el s = (fst (buildClose E el s), s1\<lparr>nodes := nodes s1 @ [last (nodes (snd (buildClose E el s)))], objs := objs (snd (buildClose E el s)), place := place (snd (buildClose E el s))\<rparr>)"
    using assms
    by (cases "closeStyles (opts s)") (simp_all add: defs split: option.splits content.splits)
  show "parentNode (last (nodes (snd (buildClose E el s)))) = PElem m"
    using assms
    by (cases "closeStyles (opts s)") (simp_all add: defs split: option.splits content.splits)
  show "fst (buildClose E el s) = Inr (Handle (length (nodes s1))) \<and>
      className (last (nodes (snd (buildClose E el s)))) = ''pico-close'' \<and>
      listeners (last (nodes (snd (buildClose E el s)))) = [CloseFn] \<or>
      fst (buildClose E el s) = Inl HierarchyRequestError \<and> \<not> accepted E (closeHtml (opts s))"
    using assms
    by (cases "closeStyles (opts s)")
      (auto simp add: defs not_accepted split: option.splits content.splits)
  show "\<forall>r. objs (snd (buildClose E el s)) r = objs s1 r \<or> objs (snd (buildClose E el s)) r = set_filter E (objs s1 r)"
    using assms
    by (cases "closeStyles (opts s)") (simp_all add: defs split: option.splits content.splits)
qed

lemma buildClose_throw:
  assumes "getOption (opts s) closeButton True" "el s = (Inl e, s1)"
  shows "buildClose E el s = (Inl e, s1)"
  using assms by (simp add: buildClose_def comp_defs)

lemma buildClose_off:
  assumes "\<not> getOption (opts s) closeButton True"
  shows "buildClose E el s = (Inr Undefined, s)"
  using assms by (simp add: buildClose_def comp_defs)

subsection \<open>The memoized builders, case by case\<close>

lemma modalElem_cases:
  obtains (memo) "\<not> notCalled (modalMemo s)" "modalElem E s = (Inr (result (modalMemo s)), s)"
  | (built) n ob pl where "notCalled (modalMemo s)"
      "modalElem E s = (Inr (Handle (length (nodes s))),
         s\<lparr>nodes := nodes s @ [n], objs := ob, place := pl, timers := timers s @ created s,
           modalMemo := \<lparr>notCalled = False, result = Handle (length (nodes s)),
             runs = Suc (runs (modalMemo s))\<rparr>\<rparr>)"
      "parentNode n = PBody" "className n = ''pico-content''" "listeners n = []"
      "\<forall>r. ob r = objs s r \<or> ob r = set_filter E (objs s r)"
  | (failed) n ob pl where "notCalled (modalMemo s)" "\<not> accepted E (content (opts s))"
      "modalElem E s = (Inl HierarchyRequestError,
         s\<lparr>nodes := nodes s @ [n], objs := ob, place := pl,
           modalMemo := (modalMemo s)\<lparr>runs := Suc (runs (modalMemo s))\<rparr>\<rparr>)"
      "\<forall>r. ob r = objs s r \<or> ob r = set_filter E (objs s r)"
proof (cases "notCalled (modalMemo s)")
  case False
  then show ?thesis by (intro memo) (simp_all add: modalElem_def memoize_def)
next
  case True
  define s1 where "s1 = modalMemo_update (\<lambda>m. m\<lparr>runs := Suc (runs m)\<rparr>) s"
  obtain n ob pl r where n:
    "buildModal E s1 = (r, s1\<lparr>nodes := nodes s1 @ [n], objs := ob, place := pl\<rparr>)"
    "parentNode n = PBody" "className n = ''pico-content''" "listeners n = []"
    "\<forall>r. ob r = objs s1 r \<or> ob r = set_filter E (objs s1 r)"
    "r = Inr (Handle (length (nodes s1))) \<or>
     r = Inl HierarchyRequestError \<and> \<not> accepted E (content (opts s1))"
    by (rule buildModal_run [where E = E and s = s1])
  have s1: "nodes s1 = nodes s" "objs s1 = objs s" "opts s1 = opts s" by (simp_all add: s1_def)
  from n(6) show ?thesis
  proof
    assume r: "r = Inr (Handle (length (nodes s1)))"
    show ?thesis
    proof (rule built [where n = n and ob = ob and pl = pl])
      show "modalElem E s = (Inr (Handle (length (nodes s))),
         s\<lparr>nodes := nodes s @ [n], objs := ob, place := pl, timers := timers s @ created s,
           modalMemo := \<lparr>notCalled = False, result = Handle (length (nodes s)),
             runs = Suc (runs (modalMemo s))\<rparr>\<rparr>)"
        using True n(1) r unfolding s1_def
        by (simp add: modalElem_def memoize_def comp_defs trigger_def trigger_loop_eq created_def)
    qed (use True n s1 in simp_all)
  next
    assume r: "r = Inl HierarchyRequestError \<and> \<not> accepted E (content (opts s1))"
    show ?thesis
    proof (rule failed [where n = n and ob = ob and pl = pl])
      show "modalElem E s = (Inl HierarchyRequestError,
         s\<lparr>nodes := nodes s @ [n], objs := ob, place := pl,
           modalMemo := (modalMemo s)\<lparr>runs := Suc (runs (modalMemo s))\<rparr>\<rparr>)"
        using True n(1) r unfolding s1_def
        by (simp add: modalElem_def memoize_def comp_defs)
    qed (use True n s1 r in simp_all)
  qed
qed

lemma shadowElem_cases:
  obtains (memo) "\<not> notCalled (shadowMemo s)" "shadowElem E s = (Inr (result (shadowMemo s)), s)"
  | (built) n ob where "notCalled (shadowMemo s)"
      "shadowElem E s = (Inr (Handle (length (nodes s))),
         s\<lparr>nodes := nodes s @ [n], objs := ob,
           shadowMemo := \<lparr>notCalled = False, result = Handle (length (nodes s)),
             runs = Suc (runs (shadowMemo s))\<rparr>\<rparr>)"
      "parentNode n = PBody" "className n = ''pico-overlay''"
      "listeners n = [if getOption (opts s) overlayClose True then CloseFn else NoopFn]"
      "\<forall>r. ob r = objs s r \<or> ob r = set_filter E (objs s r)"
proof (cases "notCalled (shadowMemo s)")
  case False
  then show ?thesis by (intro memo) (simp_all add: shadowElem_def memoize_def)
next
  case True
  define s1 where "s1 = shadowMemo_update (\<lambda>m. m\<lparr>runs := Suc (runs m)\<rparr>) s"
  obtain n ob where n:
    "buildOverlay E s1 = (Inr (Handle (length (nodes s1))), s1\<lparr>nodes := nodes s1 @ [n], objs := ob\<rparr>)"
    "parentNode n = PBody" "className n = ''pico-overlay''"
    "listeners n = [if getOption (opts s1) overlayClose True then CloseFn else NoopFn]"
    "\<forall>r. ob r = objs s1 r \<or> ob r = set_filter E (objs s1 r)"
    by (rule buildOverlay_run [where E = E and s = s1])
  have s1: "nodes s1 = nodes s" "objs s1 = objs s" "opts s1 = opts s" by (simp_all add: s1_def)
  show ?thesis
  proof (rule built [where n = n and ob = ob])
    show "shadowElem E s = (Inr (Handle (length (nodes s))),
         s\<lparr>nodes := nodes s @ [n], objs := ob,
           shadowMemo := \<lparr>notCalled = False, result = Handle (length (nodes s)),
             runs = Suc (runs (shadowMemo s))\<rparr>\<rparr>)"
      using True n(1) unfolding s1_def
      by (simp add: shadowElem_def memoize_def)
  qed (use True n s1 in simp_all)
qed

text \<open>
  The memoized builder of the close button, in a state whose content box, if built, is
  behind a handle.
\<close>

lemma closeElem_cases:
  assumes "notCalled (modalMemo s) \<or> (\<exists>m. result (modalMemo s) = Handle m)"
  obtains (memo) "\<not> notCalled (closeMemo s)" "closeElem E s = (Inr (result (closeMemo s)), s)"
  | (off) "notCalled (closeMemo s)" "\<not> getOption (opts s) closeButton True"
      "closeElem E s = (Inr Undefined,
         s\<lparr>closeMemo := \<lparr>notCalled = False, result = Undefined,
           runs = Suc (runs (closeMemo s))\<rparr>\<rparr>)"
  | (threw) e t where "notCalled (closeMemo s)" "getOption (opts s) closeButton True"
      "modalElem E (closeMemo_update (\<lambda>m. m\<lparr>runs := Suc (runs m)\<rparr>) s) = (Inl e, t)"
      "closeElem E s = (Inl e, t)"
  | (built) m t c ob pl where "notCalled (closeMemo s)" "getOption (opts s) closeButton True"
      "modalElem E (closeMemo_update (\<lambda>m. m\<lparr>runs := Suc (runs m)\<rparr>) s) = (Inr (Handle m), t)"
      "closeElem E s = (Inr (Handle (length (nodes t))),
         t\<lparr>nodes := nodes t @ [c], objs := ob, place := pl,
           closeMemo := \<lparr>notCalled = False, result = Handle (length (nodes t)),
             runs = Suc (runs (closeMemo s))\<rparr>\<rparr>)"
      "parentNode c = PElem m" "className c = ''pico-close''" "listeners c = [CloseFn]"
      "\<forall>r. ob r = objs t r \<or> ob r = set_filter E (objs t r)"
  | (refused) m t c ob pl where "notCalled (closeMemo s)" "getOption (opts s) closeButton True"
      "\<not> accepted E (closeHtml (opts s))"
      "modalElem E (closeMemo_update (\<lambda>m. m\<lparr>runs := Suc (runs m)\<rparr>) s) = (Inr (Handle m), t)"
      "closeElem E s = (Inl HierarchyRequestError,
         t\<lparr>nodes := nodes t @ [c], objs := ob, place := pl\<rparr>)"
      "parentNode c = PElem m"
      "\<forall>r. ob r = objs t r \<or> ob r = set_filter E (objs t r)"
proof (cases "notCalled (closeMemo s)")
  case False
  then show ?thesis by (intro memo) (simp_all add: closeElem_def memoize_def)
next
  case True
  define s1 where "s1 = closeMemo_update (\<lambda>m. m\<lparr>runs := Suc (runs m)\<rparr>) s"
  have s1: "opts s1 = opts s" "modalMemo s1 = modalMemo s" "closeMemo s1 = (closeMemo s)\<lparr>runs := Suc (runs (closeMemo s))\<rparr>"
    by (simp_all add: s1_def)
  show ?thesis
  proof (cases "getOption (opts s) closeButton True")
    case no: False
    then have b: "buildClose E (modalElem E) s1 = (Inr Undefined, s1)"
      by (intro buildClose_off) (simp add: s1_def)
    show ?thesis
    proof (rule off)
      show "closeElem E s = (Inr Undefined,
         s\<lparr>closeMemo := \<lparr>notCalled = False, result = Undefined, runs = Suc (runs (closeMemo s))\<rparr>\<rparr>)"
        using True b unfolding s1_def by (simp add: closeElem_def memoize_def)
    qed (use True no in simp_all)
  next
    case on: True
    have on1: "getOption (opts s1) closeButton True" using on by (simp add: s1_def)
    obtain r0 u where m: "modalElem E s1 = (r0, u)" by (cases "modalElem E s1")
    have o2: "opts u = opts s1"
      using m by (rule_tac modalElem_cases [of s1 E]) auto
    show ?thesis
    proof (cases r0)
      case (Inl e)
      have "buildClose E (modalElem E) s1 = (Inl e, u)"
        using on1 m [unfolded Inl] by (rule buildClose_throw)
      then have "closeElem E s = (Inl e, u)"
        using True unfolding s1_def by (simp add: closeElem_def memoize_def)
      with True on m Inl show ?thesis unfolding s1_def by (intro threw) simp_all
    next
      case (Inr v)
      have "\<exists>k. v = Handle k"
        using m Inr assms s1(2) by (rule_tac modalElem_cases [of s1 E]) auto
      then obtain k where k: "v = Handle k" by blast
      have mk: "modalElem E s1 = (Inr (Handle k), u)" using m Inr k by simp
      obtain c ob pl r where c:
        "buildClose E (modalElem E) s1 = (r, u\<lparr>nodes := nodes u @ [c], objs := ob, place := pl\<rparr>)"
        "parentNode c = PElem k"
        "r = Inr (Handle (length (nodes u))) \<and> className c = ''pico-close'' \<and> listeners c = [CloseFn] \<or>
         r = Inl HierarchyRequestError \<and> \<not> accepted E (closeHtml (opts s1))"
        "\<forall>r. ob r = objs u r \<or> ob r = set_filter E (objs u r)"
        by (rule buildClose_run [where E = E and el = "modalElem E" and s = s1, OF on1 mk o2])
      have cm2: "closeMemo u = (closeMemo s)\<lparr>runs := Suc (runs (closeMemo s))\<rparr>"
        using m s1(3) by (rule_tac modalElem_cases [of s1 E]) auto
      from c(3) show ?thesis
      proof
        assume r: "r = Inr (Handle (length (nodes u))) \<and> className c = ''pico-close'' \<and> listeners c = [CloseFn]"
        show ?thesis
        proof (rule built [where m = k and t = u and c = c and ob = ob and pl = pl])
          show "closeElem E s = (Inr (Handle (length (nodes u))),
             u\<lparr>nodes := nodes u @ [c], objs := ob, place := pl,
               closeMemo := \<lparr>notCalled = False, result = Handle (length (nodes u)),
                 runs = Suc (runs (closeMemo s))\<rparr>\<rparr>)"
            using True c(1) r cm2 unfolding s1_def
            by (simp add: closeElem_def memoize_def)
        qed (use True on mk c r in \<open>simp_all add: s1_def\<close>)
      next
        assume r: "r = Inl HierarchyRequestError \<and> \<not> accepted E (closeHtml (opts s1))"
        show ?thesis
        proof (rule refused [where m = k and t = u and c = c and ob = ob and pl = pl])
          show "closeElem E s = (Inl HierarchyRequestError,
             u\<lparr>nodes := nodes u @ [c], objs := ob, place := pl\<rparr>)"
            using True c(1) r unfolding s1_def
            by (simp add: closeElem_def memoize_def)
        qed (use True on mk c r in \<open>simp_all add: s1_def\<close>)
      qed
    qed
  qed
qed

subsection \<open>The invariant of an instance\<close>

lemmas inv_defs = inv_def modal_ok_def shadow_ok_def close_ok_def vars_ok_def

lemma modal_nodeE:
  assumes "modal_node ns var v"
  obtains m where "v = Handle m" "m < length ns" "className (ns ! m) = ''pico-content''"
    "parentNode (ns ! m) = (if var then PBody else PNone)"
  using assms by (cases v) simp_all

lemma shadow_nodeE:
  assumes "shadow_node ns x var v"
  obtains h where "v = Handle h" "h < length ns" "className (ns ! h) = ''pico-overlay''"
    "listeners (ns ! h) = [if getOption x overlayClose True then CloseFn else NoopFn]"
    "parentNode (ns ! h) = (if var then PBody else PNone)"
  using assms by (cases v) simp_all

lemma close_nodeE:
  assumes "close_node ns u v"
  obtains m c where "u = Handle m" "v = Handle c" "c < length ns"
    "className (ns ! c) = ''pico-close''" "listeners (ns ! c) = [CloseFn]"
    "parentNode (ns ! c) = PElem m"
  using assms by (cases u; cases v) simp_all

lemma modal_node_append: "modal_node ns var v \<Longrightarrow> modal_node (ns @ xs) var v"
  by (erule modal_nodeE) (simp add: nth_append)

lemma shadow_node_append: "shadow_node ns x var v \<Longrightarrow> shadow_node (ns @ xs) x var v"
  by (erule shadow_nodeE) (simp add: nth_append)

lemma close_node_append: "close_node ns u v \<Longrightarrow> close_node (ns @ xs) u v"
  by (erule close_nodeE) (simp add: nth_append)

lemma modal_node_shape: "modal_node ns var v \<Longrightarrow> same_shape ns ns' \<Longrightarrow> modal_node ns' var v"
  by (erule modal_nodeE) (simp add: same_shape_def)

lemma shadow_node_shape:
  "shadow_node ns x var v \<Longrightarrow> same_shape ns ns' \<Longrightarrow> shadow_node ns' x var v"
  by (erule shadow_nodeE) (simp add: same_shape_def)

lemma close_node_shape: "close_node ns u v \<Longrightarrow> same_shape ns ns' \<Longrightarrow> close_node ns' u v"
  by (erule close_nodeE) (simp add: same_shape_def)

lemma same_shape_style: "same_shape ns (ns[e := (ns ! e)\<lparr>style := st\<rparr>])"
proof -
  have "className (ns[e := (ns ! e)\<lparr>style := st\<rparr>] ! i) = className (ns ! i) \<and>
      listeners (ns[e := (ns ! e)\<lparr>style := st\<rparr>] ! i) = listeners (ns ! i) \<and>
      parentNode (ns[e := (ns ! e)\<lparr>style := st\<rparr>] ! i) = parentNode (ns ! i)"
    if "i < length ns" for i
    using that by (cases "i = e") simp_all
  then show ?thesis by (simp add: same_shape_def)
qed

lemma inv_append: "inv s \<Longrightarrow> inv (s\<lparr>nodes := nodes s @ xs\<rparr>)"
  by (auto simp add: inv_defs modal_node_append shadow_node_append close_node_append)

lemma inv_shape: "inv s \<Longrightarrow> same_shape (nodes s) ns \<Longrightarrow> inv (s\<lparr>nodes := ns\<rparr>)"
  by (auto simp add: inv_defs modal_node_shape shadow_node_shape close_node_shape)

lemma inv_objs [simp]: "inv (s\<lparr>objs := ob\<rparr>) = inv s"
  by (simp add: inv_defs)

lemma inv_place [simp]: "inv (s\<lparr>place := pl\<rparr>) = inv s"
  by (simp add: inv_defs)

lemma inv_timers [simp]: "inv (s\<lparr>timers := ts\<rparr>) = inv s"
  by (simp add: inv_defs)

lemma inv_fired [simp]: "inv (s\<lparr>fired := ts\<rparr>) = inv s"
  by (simp add: inv_defs)

lemma inv_runs [simp]:
  "inv (s\<lparr>modalMemo := (modalMemo s)\<lparr>runs := k\<rparr>\<rparr>) = inv s"
  "inv (s\<lparr>shadowMemo := (shadowMemo s)\<lparr>runs := k\<rparr>\<rparr>) = inv s"
  "inv (s\<lparr>closeMemo := (closeMemo s)\<lparr>runs := k\<rparr>\<rparr>) = inv s"
  by (simp_all add: inv_defs)

lemma inv_bump [simp]:
  "inv (modalMemo_update (\<lambda>m. m\<lparr>runs := Suc (runs m)\<rparr>) s) = inv s"
  "inv (shadowMemo_update (\<lambda>m. m\<lparr>runs := Suc (runs m)\<rparr>) s) = inv s"
  "inv (closeMemo_update (\<lambda>m. m\<lparr>runs := Suc (runs m)\<rparr>) s) = inv s"
  by (simp_all add: inv_defs)

lemma inv_show_elem: "inv s \<Longrightarrow> inv (snd (show_elem e s))"
  unfolding show_elem_def map_node_def snd_conv
  by (erule inv_shape) (rule same_shape_style)

lemma inv_hide: "inv s \<Longrightarrow> inv (snd (hide e s))"
  unfolding hide_def map_node_def snd_conv
  by (erule inv_shape) (rule same_shape_style)

lemma set_filter_idem: "set_filter E (set_filter E st) = set_filter E st"
  by (cases "map_of st ''opacity''") (simp_all add: set_filter_def update_conv')

lemma filter_rel_trans:
  assumes "\<forall>r. b r = a r \<or> b r = set_filter E (a r)"
    and "\<forall>r. c r = b r \<or> c r = set_filter E (b r)"
  shows "\<forall>r. c r = a r \<or> c r = set_filter E (a r)"
  using assms by (metis set_filter_idem)

lemma inv_modal_set:
  assumes "inv s" "modal_node (nodes s) (modalElemVar s) (Handle m)" "notCalled (modalMemo s)"
  shows "inv (s\<lparr>modalMemo := \<lparr>notCalled = False, result = Handle m, runs = k\<rparr>\<rparr>)"
  using assms by (auto simp add: inv_defs)

lemma inv_shadow_set:
  assumes "inv s" "shadow_node (nodes s) (opts s) (shadowElemVar s) (Handle h)"
  shows "inv (s\<lparr>shadowMemo := \<lparr>notCalled = False, result = Handle h, runs = k\<rparr>\<rparr>)"
  using assms by (auto simp add: inv_defs)

lemma inv_close_set:
  assumes "inv s"
    "if getOption (opts s) closeButton True
     then \<not> notCalled (modalMemo s) \<and> close_node (nodes s) (result (modalMemo s)) v
     else v = Undefined"
  shows "inv (s\<lparr>closeMemo := \<lparr>notCalled = False, result = v, runs = k\<rparr>\<rparr>)"
  using assms by (auto simp add: inv_defs)

lemma inv_vars:
  assumes "inv s"
  shows "shadowElemVar s = modalElemVar s" "closeElemVar s = modalElemVar s"
    "notCalled (modalMemo s) \<Longrightarrow> modalElemVar s" "notCalled (shadowMemo s) \<Longrightarrow> modalElemVar s"
  using assms by (auto simp add: inv_def vars_ok_def)

subsection \<open>What a memoized builder does to the state\<close>

lemma modalElem_eff0:
  assumes "modalElem E s = (r, t)"
  shows "t = s\<lparr>nodes := nodes t, objs := objs t, place := place t, timers := timers t,
        modalMemo := modalMemo t\<rparr> \<and>
    (\<exists>xs. nodes t = nodes s @ xs) \<and>
    (\<forall>r. objs t r = objs s r \<or> objs t r = set_filter E (objs s r)) \<and>
    timers t = timers s @ (if notCalled (modalMemo t) then [] else created s) \<and>
    (notCalled (modalMemo t) \<longrightarrow> r = Inl HierarchyRequestError \<and> notCalled (modalMemo s) \<and>
       \<not> accepted E (content (opts s)) \<and> result (modalMemo t) = result (modalMemo s) \<and>
       runs (modalMemo t) = Suc (runs (modalMemo s))) \<and>
    (\<not> notCalled (modalMemo t) \<longrightarrow> r = Inr (result (modalMemo t))) \<and>
    (\<not> notCalled (modalMemo s) \<longrightarrow> t = s) \<and>
    (notCalled (modalMemo s) \<and> \<not> notCalled (modalMemo t) \<longrightarrow>
       runs (modalMemo t) = Suc (runs (modalMemo s)))"
  by (rule modalElem_cases [of s E]) (use assms in \<open>auto simp add: created_def\<close>)

lemma modalElem_eff:
  assumes "modalElem E s = (r, t)"
  shows "t = s\<lparr>nodes := nodes t, objs := objs t, place := place t, timers := timers t,
        modalMemo := modalMemo t\<rparr>"
    and "\<exists>xs. nodes t = nodes s @ xs"
    and "\<forall>r. objs t r = objs s r \<or> objs t r = set_filter E (objs s r)"
    and "timers t = timers s @ (if notCalled (modalMemo t) then [] else created s)"
    and "notCalled (modalMemo t) \<Longrightarrow> r = Inl HierarchyRequestError \<and> notCalled (modalMemo s) \<and>
       \<not> accepted E (content (opts s)) \<and> result (modalMemo t) = result (modalMemo s) \<and>
       runs (modalMemo t) = Suc (runs (modalMemo s))"
    and "\<not> notCalled (modalMemo t) \<Longrightarrow> r = Inr (result (modalMemo t))"
    and "\<not> notCalled (modalMemo s) \<Longrightarrow> t = s"
    and "notCalled (modalMemo s) \<Longrightarrow> \<not> notCalled (modalMemo t) \<Longrightarrow>
       runs (modalMemo t) = Suc (runs (modalMemo s))"
  using modalElem_eff0 [OF assms] by blast+

lemma modalElem_inv: 
  assumes "inv s"
  shows "inv (snd (modalElem E s))"
proof (rule modalElem_cases [of s E])
  assume "\<not> notCalled (modalMemo s)" "modalElem E s = (Inr (result (modalMemo s)), s)"
  then show ?thesis using assms by simp
next
  fix n ob pl
  assume a: "notCalled (modalMemo s)"
    "modalElem E s = (Inr (Handle (length (nodes s))),
         s\<lparr>nodes := nodes s @ [n], objs := ob, place := pl, timers := timers s @ created s,
           modalMemo := \<lparr>notCalled = False, result = Handle (length (nodes s)),
             runs = Suc (runs (modalMemo s))\<rparr>\<rparr>)"
    "parentNode n = PBody" "className n = ''pico-content''"
  have v: "modalElemVar s" using assms a(1) by (rule inv_vars)
  have "inv (s\<lparr>nodes := nodes s @ [n], objs := ob, place := pl,
      timers := timers s @ created s\<rparr>)"
    using assms by (simp add: inv_append)
  then have "inv (s\<lparr>nodes := nodes s @ [n], objs := ob, place := pl,
      timers := timers s @ created s,
      modalMemo := \<lparr>notCalled = False, result = Handle (length (nodes s)),
             runs = Suc (runs (modalMemo s))\<rparr>\<rparr>)"
    by (rule inv_modal_set) (use a v in simp_all)
  then show ?thesis using a(2) by simp
next
  fix n ob pl
  assume a: "notCalled (modalMemo s)"
    "modalElem E s = (Inl HierarchyRequestError,
         s\<lparr>nodes := nodes s @ [n], objs := ob, place := pl,
           modalMemo := (modalMemo s)\<lparr>runs := Suc (runs (modalMemo s))\<rparr>\<rparr>)"
  have "inv (s\<lparr>nodes := nodes s @ [n], objs := ob, place := pl\<rparr>)"
    using assms by (simp add: inv_append)
  then have "inv (s\<lparr>nodes := nodes s @ [n], objs := ob, place := pl,
           modalMemo := (modalMemo s)\<lparr>runs := Suc (runs (modalMemo s))\<rparr>\<rparr>)"
    using inv_runs(1) [where s = "s\<lparr>nodes := nodes s @ [n], objs := ob, place := pl\<rparr>" and k = "Suc (runs (modalMemo s))"] by simp
  then show ?thesis using a(2) by simp
qed

lemma shadowElem_eff0:
  assumes "shadowElem E s = (r, t)"
  shows "t = s\<lparr>nodes := nodes t, objs := objs t, shadowMemo := shadowMemo t\<rparr> \<and>
    (\<exists>xs. nodes t = nodes s @ xs) \<and>
    (\<forall>r. objs t r = objs s r \<or> objs t r = set_filter E (objs s r)) \<and>
    \<not> notCalled (shadowMemo t) \<and> r = Inr (result (shadowMemo t)) \<and>
    (\<not> notCalled (shadowMemo s) \<longrightarrow> t = s) \<and>
    (notCalled (shadowMemo s) \<longrightarrow> runs (shadowMemo t) = Suc (runs (shadowMemo s)))"
  by (rule shadowElem_cases [of s E]) (use assms in auto)

lemma shadowElem_eff:
  assumes "shadowElem E s = (r, t)"
  shows "t = s\<lparr>nodes := nodes t, objs := objs t, shadowMemo := shadowMemo t\<rparr>"
    and "\<exists>xs. nodes t = nodes s @ xs"
    and "\<forall>r. objs t r = objs s r \<or> objs t r = set_filter E (objs s r)"
    and "\<not> notCalled (shadowMemo t)" and "r = Inr (result (shadowMemo t))"
    and "\<not> notCalled (shadowMemo s) \<Longrightarrow> t = s"
    and "notCalled (shadowMemo s) \<Longrightarrow> runs (shadowMemo t) = Suc (runs (shadowMemo s))"
  using shadowElem_eff0 [OF assms] by blast+

lemma shadowElem_inv:
  assumes "inv s"
  shows "inv (snd (shadowElem E s))"
proof (rule shadowElem_cases [of s E])
  assume "\<not> notCalled (shadowMemo s)" "shadowElem E s = (Inr (result (shadowMemo s)), s)"
  then show ?thesis using assms by simp
next
  fix n ob
  assume a: "notCalled (shadowMemo s)"
    "shadowElem E s = (Inr (Handle (length (nodes s))),
         s\<lparr>nodes := nodes s @ [n], objs := ob,
           shadowMemo := \<lparr>notCalled = False, result = Handle (length (nodes s)),
             runs = Suc (runs (shadowMemo s))\<rparr>\<rparr>)"
    "parentNode n = PBody" "className n = ''pico-overlay''"
    "listeners n = [if getOption (opts s) overlayClose True then CloseFn else NoopFn]"
  have v: "shadowElemVar s" using inv_vars [OF assms] a(1) by simp
  have "inv (s\<lparr>nodes := nodes s @ [n], objs := ob\<rparr>)"
    using assms by (simp add: inv_append)
  then have "inv (s\<lparr>nodes := nodes s @ [n], objs := ob,
      shadowMemo := \<lparr>notCalled = False, result = Handle (length (nodes s)),
             runs = Suc (runs (shadowMemo s))\<rparr>\<rparr>)"
    by (rule inv_shadow_set) (use a v in simp_all)
  then show ?thesis using a(2) by simp
qed

lemma inv_modal_handle0:
  "inv s \<Longrightarrow> notCalled (modalMemo s) \<or> (\<exists>m. result (modalMemo s) = Handle m)"
  by (auto simp add: inv_def modal_ok_def elim: modal_nodeE)

lemma created_called: "\<not> notCalled (modalMemo s) \<Longrightarrow> created s = []"
  by (simp add: created_def)

lemma accepts_closed:
  "\<not> accepted E (content (opts s)) \<Longrightarrow> \<not> accepts E (opts s)"
  "\<not> accepted E (closeHtml (opts s)) \<Longrightarrow> \<not> accepts E (opts s)"
  by (simp_all add: accepts_def)

lemma closeElem_eff0:
  assumes A: "notCalled (modalMemo s) \<or> (\<exists>m. result (modalMemo s) = Handle m)"
    and c: "closeElem E s = (r, t)"
  shows "t = s\<lparr>nodes := nodes t, objs := objs t, place := place t, timers := timers t,
        modalMemo := modalMemo t, closeMemo := closeMemo t\<rparr> \<and>
    (\<exists>xs. nodes t = nodes s @ xs) \<and>
    (\<forall>r. objs t r = objs s r \<or> objs t r = set_filter E (objs s r)) \<and>
    timers t = timers s @
      (if notCalled (modalMemo s) \<and> \<not> notCalled (modalMemo t) then created s else []) \<and>
    (notCalled (modalMemo s) \<or> modalMemo t = modalMemo s) \<and>
    (\<not> notCalled (closeMemo t) \<longrightarrow> r = Inr (result (closeMemo t))) \<and>
    (notCalled (closeMemo t) \<longrightarrow> r = Inl HierarchyRequestError \<and> \<not> accepts E (opts s) \<and>
       notCalled (closeMemo s) \<and> result (closeMemo t) = result (closeMemo s)) \<and>
    (\<not> notCalled (closeMemo s) \<longrightarrow> t = s) \<and>
    (notCalled (closeMemo s) \<longrightarrow> runs (closeMemo t) = Suc (runs (closeMemo s))) \<and>
    (notCalled (modalMemo s) \<and> \<not> notCalled (modalMemo t) \<longrightarrow>
       runs (modalMemo t) = Suc (runs (modalMemo s))) \<and>
    (notCalled (modalMemo t) \<longrightarrow> modalMemo t = modalMemo s \<or> \<not> accepts E (opts s))"
proof (rule closeElem_cases [OF A, of E])
  assume "\<not> notCalled (closeMemo s)" "closeElem E s = (Inr (result (closeMemo s)), s)"
  then show ?thesis using c by auto
next
  assume "notCalled (closeMemo s)" "\<not> getOption (opts s) closeButton True"
    "closeElem E s = (Inr Undefined,
         s\<lparr>closeMemo := \<lparr>notCalled = False, result = Undefined,
           runs = Suc (runs (closeMemo s))\<rparr>\<rparr>)"
  then show ?thesis using c by auto
next
  fix e u
  define s1 where "s1 = closeMemo_update (\<lambda>m. m\<lparr>runs := Suc (runs m)\<rparr>) s"
  assume a: "notCalled (closeMemo s)" "getOption (opts s) closeButton True"
    "modalElem E (closeMemo_update (\<lambda>m. m\<lparr>runs := Suc (runs m)\<rparr>) s) = (Inl e, u)"
    "closeElem E s = (Inl e, u)"
  have m: "modalElem E s1 = (Inl e, u)" using a(3) by (simp add: s1_def)
  note f = modalElem_eff [OF m]
  have tu: "t = u" "r = Inl e" using a(4) c by simp_all
  have nc: "notCalled (modalMemo u)" using f(6) by auto
  have s1: "nodes s1 = nodes s" "objs s1 = objs s" "timers s1 = timers s" "opts s1 = opts s"
    "modalMemo s1 = modalMemo s" by (simp_all add: s1_def)
  have cm: "closeMemo u = (closeMemo s)\<lparr>runs := Suc (runs (closeMemo s))\<rparr>"
    using arg_cong [OF f(1), of closeMemo] by (simp add: s1_def)
  have "u = s\<lparr>nodes := nodes u, objs := objs u, place := place u, timers := timers u,
        modalMemo := modalMemo u, closeMemo := closeMemo u\<rparr>"
    by (subst f(1)) (simp add: s1_def cm)
  then show ?thesis
    using f(2-5) nc a(1) cm by (simp add: tu s1 accepts_closed)
next
  fix m u c0 ob pl
  define s1 where "s1 = closeMemo_update (\<lambda>m. m\<lparr>runs := Suc (runs m)\<rparr>) s"
  assume a: "notCalled (closeMemo s)" "getOption (opts s) closeButton True"
    "modalElem E (closeMemo_update (\<lambda>m. m\<lparr>runs := Suc (runs m)\<rparr>) s) = (Inr (Handle m), u)"
    "closeElem E s = (Inr (Handle (length (nodes u))),
         u\<lparr>nodes := nodes u @ [c0], objs := ob, place := pl,
           closeMemo := \<lparr>notCalled = False, result = Handle (length (nodes u)),
             runs = Suc (runs (closeMemo s))\<rparr>\<rparr>)"
    "\<forall>r. ob r = objs u r \<or> ob r = set_filter E (objs u r)"
  have m: "modalElem E s1 = (Inr (Handle m), u)" using a(3) by (simp add: s1_def)
  note f = modalElem_eff [OF m]
  have t: "t = u\<lparr>nodes := nodes u @ [c0], objs := ob, place := pl,
           closeMemo := \<lparr>notCalled = False, result = Handle (length (nodes u)),
             runs = Suc (runs (closeMemo s))\<rparr>\<rparr>"
    and r: "r = Inr (Handle (length (nodes u)))" using a(4) c by simp_all
  have nc: "\<not> notCalled (modalMemo u)" using f(5) by auto
  have s1: "nodes s1 = nodes s" "objs s1 = objs s" "timers s1 = timers s" "opts s1 = opts s"
    "modalMemo s1 = modalMemo s" "created s1 = created s" by (simp_all add: s1_def created_def)
  have 1: "t = s\<lparr>nodes := nodes t, objs := objs t, place := place t, timers := timers t,
        modalMemo := modalMemo t, closeMemo := closeMemo t\<rparr>"
    unfolding t by (subst f(1)) (simp add: s1_def)
  have 2: "\<exists>xs. nodes t = nodes s @ xs" using f(2) by (auto simp add: t s1)
  have 3: "\<forall>r. objs t r = objs s r \<or> objs t r = set_filter E (objs s r)"
  proof -
    have "\<forall>r. objs u r = objs s r \<or> objs u r = set_filter E (objs s r)"
      using f(3) by (simp add: s1)
    then have "\<forall>r. ob r = objs s r \<or> ob r = set_filter E (objs s r)"
      using a(5) by (rule filter_rel_trans)
    then show ?thesis by (simp add: t)
  qed
  have 4: "timers t = timers s @
      (if notCalled (modalMemo s) \<and> \<not> notCalled (modalMemo t) then created s else [])"
    using f(4) f(7) nc by (cases "notCalled (modalMemo s)") (auto simp add: t s1 created_called)
  have 5: "notCalled (modalMemo s) \<or> modalMemo t = modalMemo s"
  proof (cases "notCalled (modalMemo s)")
    case False
    then have "u = s1" using f(7) by (simp add: s1)
    then show ?thesis by (simp add: t s1)
  qed simp
  have 6: "notCalled (modalMemo s) \<Longrightarrow> runs (modalMemo t) = Suc (runs (modalMemo s))"
    using f(8) nc by (simp add: t s1)
  show ?thesis using 1 2 3 4 5 6 nc a(1) by (simp add: t r)
next
  fix m u c0 ob pl
  define s1 where "s1 = closeMemo_update (\<lambda>m. m\<lparr>runs := Suc (runs m)\<rparr>) s"
  assume a: "notCalled (closeMemo s)" "getOption (opts s) closeButton True"
    "\<not> accepted E (closeHtml (opts s))"
    "modalElem E (closeMemo_update (\<lambda>m. m\<lparr>runs := Suc (runs m)\<rparr>) s) = (Inr (Handle m), u)"
    "closeElem E s = (Inl HierarchyRequestError,
         u\<lparr>nodes := nodes u @ [c0], objs := ob, place := pl\<rparr>)"
    "\<forall>r. ob r = objs u r \<or> ob r = set_filter E (objs u r)"
  have m: "modalElem E s1 = (Inr (Handle m), u)" using a(4) by (simp add: s1_def)
  note f = modalElem_eff [OF m]
  have t: "t = u\<lparr>nodes := nodes u @ [c0], objs := ob, place := pl\<rparr>"
    and r: "r = Inl HierarchyRequestError" using a(5) c by simp_all
  have nc: "\<not> notCalled (modalMemo u)" using f(5) by auto
  have s1: "nodes s1 = nodes s" "objs s1 = objs s" "timers s1 = timers s" "opts s1 = opts s"
    "modalMemo s1 = modalMemo s" "created s1 = created s" by (simp_all add: s1_def created_def)
  have cm: "closeMemo u = (closeMemo s)\<lparr>runs := Suc (runs (closeMemo s))\<rparr>"
    using arg_cong [OF f(1), of closeMemo] by (simp add: s1_def)
  have 1: "t = s\<lparr>nodes := nodes t, objs := objs t, place := place t, timers := timers t,
        modalMemo := modalMemo t, closeMemo := closeMemo t\<rparr>"
    unfolding t by (subst f(1)) (simp add: s1_def cm)
  have 2: "\<exists>xs. nodes t = nodes s @ xs" using f(2) by (auto simp add: t s1)
  have 3: "\<forall>r. objs t r = objs s r \<or> objs t r = set_filter E (objs s r)"
  proof -
    have "\<forall>r. objs u r = objs s r \<or> objs u r = set_filter E (objs s r)"
      using f(3) by (simp add: s1)
    then have "\<forall>r. ob r = objs s r \<or> ob r = set_filter E (objs s r)"
      using a(6) by (rule filter_rel_trans)
    then show ?thesis by (simp add: t)
  qed
  have 4: "timers t = timers s @
      (if notCalled (modalMemo s) \<and> \<not> notCalled (modalMemo t) then created s else [])"
    using f(4) f(7) nc by (cases "notCalled (modalMemo s)") (auto simp add: t s1 created_called)
  have 5: "notCalled (modalMemo s) \<or> modalMemo t = modalMemo s"
  proof (cases "notCalled (modalMemo s)")
    case False
    then have "u = s1" using f(7) by (simp add: s1)
    then show ?thesis by (simp add: t s1)
  qed simp
  have 6: "notCalled (modalMemo s) \<Longrightarrow> runs (modalMemo t) = Suc (runs (modalMemo s))"
    using f(8) nc by (simp add: t s1)
  show ?thesis using 1 2 3 4 5 6 nc a(1,3) by (simp add: t r cm accepts_closed)
qed

lemma closeElem_eff:
  assumes "inv s" "closeElem E s = (r, t)"
  shows "t = s\<lparr>nodes := nodes t, objs := objs t, place := place t, timers := timers t,
        modalMemo := modalMemo t, closeMemo := closeMemo t\<rparr>"
    and "\<exists>xs. nodes t = nodes s @ xs"
    and "\<forall>r. objs t r = objs s r \<or> objs t r = set_filter E (objs s r)"
    and "timers t = timers s @
      (if notCalled (modalMemo s) \<and> \<not> notCalled (modalMemo t) then created s else [])"
    and "notCalled (modalMemo s) \<or> modalMemo t = modalMemo s"
    and "\<not> notCalled (closeMemo t) \<Longrightarrow> r = Inr (result (closeMemo t))"
    and "notCalled (closeMemo t) \<Longrightarrow> r = Inl HierarchyRequestError \<and> \<not> accepts E (opts s) \<and>
       notCalled (closeMemo s) \<and> result (closeMemo t) = result (closeMemo s)"
    and "\<not> notCalled (closeMemo s) \<Longrightarrow> t = s"
    and "notCalled (closeMemo s) \<Longrightarrow> runs (closeMemo t) = Suc (runs (closeMemo s))"
    and "notCalled (modalMemo s) \<Longrightarrow> \<not> notCalled (modalMemo t) \<Longrightarrow>
       runs (modalMemo t) = Suc (runs (modalMemo s))"
    and "notCalled (modalMemo t) \<Longrightarrow> modalMemo t = modalMemo s \<or> \<not> accepts E (opts s)"
  using closeElem_eff0 [OF inv_modal_handle0 [OF assms(1)] assms(2)] by blast+

lemma closeElem_inv:
  assumes "inv s"
  shows "inv (snd (closeElem E s))"
proof (rule closeElem_cases [OF inv_modal_handle0 [OF assms], of E])
  assume "\<not> notCalled (closeMemo s)" "closeElem E s = (Inr (result (closeMemo s)), s)"
  then show ?thesis using assms by simp
next
  assume a: "notCalled (closeMemo s)" "\<not> getOption (opts s) closeButton True"
    "closeElem E s = (Inr Undefined,
         s\<lparr>closeMemo := \<lparr>notCalled = False, result = Undefined,
           runs = Suc (runs (closeMemo s))\<rparr>\<rparr>)"
  have "inv (s\<lparr>closeMemo := \<lparr>notCalled = False, result = Undefined,
           runs = Suc (runs (closeMemo s))\<rparr>\<rparr>)"
    using assms by (rule inv_close_set) (use a(2) in simp)
  then show ?thesis using a(3) by simp
next
  fix e u
  assume a: "modalElem E (closeMemo_update (\<lambda>m. m\<lparr>runs := Suc (runs m)\<rparr>) s) = (Inl e, u)"
    "closeElem E s = (Inl e, u)"
  have "inv (snd (modalElem E (closeMemo_update (\<lambda>m. m\<lparr>runs := Suc (runs m)\<rparr>) s)))"
    by (rule modalElem_inv) (simp add: assms)
  then show ?thesis using a by simp
next
  fix m u c ob pl
  define s1 where "s1 = closeMemo_update (\<lambda>m. m\<lparr>runs := Suc (runs m)\<rparr>) s"
  assume a: "getOption (opts s) closeButton True"
    "modalElem E (closeMemo_update (\<lambda>m. m\<lparr>runs := Suc (runs m)\<rparr>) s) = (Inr (Handle m), u)"
    "closeElem E s = (Inr (Handle (length (nodes u))),
         u\<lparr>nodes := nodes u @ [c], objs := ob, place := pl,
           closeMemo := \<lparr>notCalled = False, result = Handle (length (nodes u)),
             runs = Suc (runs (closeMemo s))\<rparr>\<rparr>)"
    "parentNode c = PElem m" "className c = ''pico-close''" "listeners c = [CloseFn]"
  have m: "modalElem E s1 = (Inr (Handle m), u)" using a(2) by (simp add: s1_def)
  note f = modalElem_eff [OF m]
  have "inv (snd (modalElem E s1))" by (rule modalElem_inv) (simp add: assms s1_def)
  then have iu: "inv u" using m by simp
  have nc: "\<not> notCalled (modalMemo u)" using f(5) by auto
  then have res: "result (modalMemo u) = Handle m" using f(6) by simp
  have ou: "opts u = opts s" using arg_cong [OF f(1), of opts] by (simp add: s1_def)
  have "inv (u\<lparr>nodes := nodes u @ [c], objs := ob, place := pl\<rparr>)"
    using iu by (simp add: inv_append)
  then have "inv (u\<lparr>nodes := nodes u @ [c], objs := ob, place := pl,
           closeMemo := \<lparr>notCalled = False, result = Handle (length (nodes u)),
             runs = Suc (runs (closeMemo s))\<rparr>\<rparr>)"
    by (rule inv_close_set) (use a nc res ou in simp)
  then show ?thesis using a(3) by simp
next
  fix m u c ob pl
  define s1 where "s1 = closeMemo_update (\<lambda>m. m\<lparr>runs := Suc (runs m)\<rparr>) s"
  assume a: "modalElem E (closeMemo_update (\<lambda>m. m\<lparr>runs := Suc (runs m)\<rparr>) s) = (Inr (Handle m), u)"
    "closeElem E s = (Inl HierarchyRequestError,
         u\<lparr>nodes := nodes u @ [c], objs := ob, place := pl\<rparr>)"
  have m: "modalElem E s1 = (Inr (Handle m), u)" using a(1) by (simp add: s1_def)
  have "inv (snd (modalElem E s1))" by (rule modalElem_inv) (simp add: assms s1_def)
  then have iu: "inv u" using m by simp
  have "inv (u\<lparr>nodes := nodes u @ [c], objs := ob, place := pl\<rparr>)"
    using iu by (simp add: inv_append)
  then show ?thesis using a(2) by simp
qed

subsection \<open>Accepted content: the builders return\<close>

lemma inv_modal_called:
  assumes "inv s" "\<not> notCalled (modalMemo s)"
  obtains m where "result (modalMemo s) = Handle m" "m < length (nodes s)"
    "className (nodes s ! m) = ''pico-content''"
    "parentNode (nodes s ! m) = (if modalElemVar s then PBody else PNone)"
  using assms by (auto simp add: inv_def modal_ok_def elim: modal_nodeE)

lemma inv_shadow_called:
  assumes "inv s" "\<not> notCalled (shadowMemo s)"
  obtains h where "result (shadowMemo s) = Handle h" "h < length (nodes s)"
    "className (nodes s ! h) = ''pico-overlay''"
    "listeners (nodes s ! h) = [if getOption (opts s) overlayClose True then CloseFn else NoopFn]"
    "parentNode (nodes s ! h) = (if shadowElemVar s then PBody else PNone)"
  using assms by (auto simp add: inv_def shadow_ok_def elim: shadow_nodeE)

lemma inv_close_called:
  assumes "inv s" "\<not> notCalled (closeMemo s)" "getOption (opts s) closeButton True"
  obtains m c where "result (modalMemo s) = Handle m" "result (closeMemo s) = Handle c"
    "\<not> notCalled (modalMemo s)" "c < length (nodes s)"
    "className (nodes s ! c) = ''pico-close''" "listeners (nodes s ! c) = [CloseFn]"
    "parentNode (nodes s ! c) = PElem m"
  using assms by (auto simp add: inv_def close_ok_def elim: close_nodeE)

lemma inv_close_off:
  assumes "inv s" "\<not> getOption (opts s) closeButton True"
  shows "result (closeMemo s) = Undefined"
  using assms by (auto simp add: inv_def close_ok_def split: if_splits)




subsection \<open>What a call may write to\<close>

lemma confined_refl [simp]: "confined s s"
  by (simp add: confined_def)

lemma confined_trans:
  assumes "confined s t" "confined t u"
  shows "confined s u"
proof -
  have a: "s\<lparr>nodes := nodes t, objs := objs t, place := place t, timers := timers t,
        modalMemo := modalMemo t, shadowMemo := shadowMemo t, closeMemo := closeMemo t\<rparr> = t"
    using assms(1) by (simp add: confined_def)
  have "u = t\<lparr>nodes := nodes u, objs := objs u, place := place u, timers := timers u,
        modalMemo := modalMemo u, shadowMemo := shadowMemo u, closeMemo := closeMemo u\<rparr>"
    using assms(2) by (simp add: confined_def)
  also have "\<dots> = (s\<lparr>nodes := nodes t, objs := objs t, place := place t, timers := timers t,
        modalMemo := modalMemo t, shadowMemo := shadowMemo t, closeMemo := closeMemo t\<rparr>)
      \<lparr>nodes := nodes u, objs := objs u, place := place u, timers := timers u,
        modalMemo := modalMemo u, shadowMemo := shadowMemo u, closeMemo := closeMemo u\<rparr>"
    unfolding a ..
  also have "\<dots> = s\<lparr>nodes := nodes u, objs := objs u, place := place u, timers := timers u,
        modalMemo := modalMemo u, shadowMemo := shadowMemo u, closeMemo := closeMemo u\<rparr>"
    by simp
  finally show ?thesis by (simp add: confined_def)
qed

lemma confined_fields:
  assumes "confined s t"
  shows "opts t = opts s" "fired t = fired s" "afterShowEvent t = afterShowEvent s"
    "afterCloseEvent t = afterCloseEvent s" "afterCreateEvent t = afterCreateEvent s"
    "modalElemVar t = modalElemVar s" "shadowElemVar t = shadowElemVar s"
    "closeElemVar t = closeElemVar s"
  using arg_cong [OF assms [unfolded confined_def], of opts]
    arg_cong [OF assms [unfolded confined_def], of fired]
    arg_cong [OF assms [unfolded confined_def], of afterShowEvent]
    arg_cong [OF assms [unfolded confined_def], of afterCloseEvent]
    arg_cong [OF assms [unfolded confined_def], of afterCreateEvent]
    arg_cong [OF assms [unfolded confined_def], of modalElemVar]
    arg_cong [OF assms [unfolded confined_def], of shadowElemVar]
    arg_cong [OF assms [unfolded confined_def], of closeElemVar]
  by simp_all

lemma confined_nodes [simp]: "confined s (s\<lparr>nodes := ns\<rparr>)"
  by (simp add: confined_def)

lemma confined_timers [simp]: "confined s (s\<lparr>timers := ts\<rparr>)"
  by (simp add: confined_def)

lemma confined_modalElem: "modalElem E s = (r, t) \<Longrightarrow> confined s t"
  by (rule modalElem_cases [of s E]) (auto simp add: confined_def)

lemma confined_shadowElem: "shadowElem E s = (r, t) \<Longrightarrow> confined s t"
  by (rule shadowElem_cases [of s E]) (auto simp add: confined_def)

lemma confined_closeElem:
  assumes "inv s" "closeElem E s = (r, t)"
  shows "confined s t"
proof -
  note f = closeElem_eff(1) [OF assms]
  have p: "shadowMemo t = shadowMemo s" using arg_cong [OF f, of shadowMemo] by simp
  have "s\<lparr>nodes := nodes t, objs := objs t, place := place t, timers := timers t,
        modalMemo := modalMemo t, shadowMemo := shadowMemo t, closeMemo := closeMemo t\<rparr> =
      s\<lparr>nodes := nodes t, objs := objs t, place := place t, timers := timers t,
        modalMemo := modalMemo t, closeMemo := closeMemo t\<rparr>"
    unfolding p by simp
  with f show ?thesis by (simp add: confined_def)
qed

subsection \<open>Properties kept by every computation\<close>

lemma preserves_ret: "preserves P (ret x)"
  by (simp add: preserves_def ret_def)

lemma preserves_throw: "preserves P (throw e)"
  by (simp add: preserves_def throw_def)

lemma preserves_and_then:
  assumes "preserves P m" "\<And>x. preserves P (f x)"
  shows "preserves P (and_then m f)"
proof -
  have "P (snd (and_then m f s))" if "P s" for s
  proof (cases "m s")
    case (Pair r t)
    have "P t" using assms(1) that Pair by (auto simp add: preserves_def)
    then show ?thesis using assms(2) Pair
      by (cases r) (auto simp add: preserves_def and_then_def)
  qed
  then show ?thesis by (simp add: preserves_def)
qed

lemma preserves_call:
  assumes "\<And>e. preserves P (m e)"
  shows "preserves P (call a m)"
  using assms by (cases a) (simp_all add: preserves_throw)

lemma preserves_call_var:
  assumes "preserves P m"
  shows "preserves P (call_var var m)"
  using assms by (simp add: preserves_def call_var_def throw_def)

lemma preserves_elem_of: "preserves P (elem_of v)"
  by (cases v) (simp_all add: preserves_ret preserves_throw)

lemma preserves_returnIface: "preserves P m \<Longrightarrow> preserves P (returnIface m)"
  unfolding returnIface_def by (intro preserves_and_then preserves_ret)

lemma preserves_accessor: "preserves P m \<Longrightarrow> preserves P (buildElemAccessor m)"
  unfolding buildElemAccessor_def by (intro preserves_and_then preserves_elem_of)

lemma preserves_fold:
  assumes "\<And>x. preserves P (\<lambda>s. (Inr Undefined, f x s))"
  shows "P s \<Longrightarrow> P (fold f xs s)"
  using assms by (induction xs arbitrary: s) (auto simp add: preserves_def)

text \<open>
  What \<open>show\<close>, \<open>close\<close>, the accessors and the clicks are made of, given what its parts
  keep.
\<close>

lemma preserves_show:
  assumes "preserves P (shadowElem E)" "preserves P (closeElem E)" "preserves P (modalElem E)"
    "\<And>e. preserves P (show_elem e)" "preserves P (trigger afterShowEvent Facade)"
  shows "preserves P (iface_show E)"
  unfolding iface_show_def
  by (intro preserves_and_then preserves_call preserves_call_var preserves_ret assms)

lemma preserves_close:
  assumes "preserves P (shadowElem E)" "preserves P (modalElem E)"
    "\<And>e. preserves P (hide e)" "preserves P (trigger afterCloseEvent Facade)"
  shows "preserves P (close E)"
  unfolding close_def
  by (intro preserves_and_then preserves_call preserves_call_var preserves_ret assms)

lemma preserves_click:
  assumes "preserves P (close E)"
  shows "P s \<Longrightarrow> P (click E e s)"
proof -
  have "preserves P (\<lambda>s. (Inr Undefined, run_handler E x s))" for x
    using assms by (cases x) (simp_all add: preserves_def)
  then show "P s \<Longrightarrow> P (click E e s)"
    unfolding click_def by (rule preserves_fold)
qed

lemma preserves_click_on:
  assumes "preserves P (close E)"
  shows "preserves P (\<lambda>s. click_on E (f s) s)"
  using preserves_click [OF assms]
  by (auto simp add: preserves_def click_on_def split: val.split)

lemma inv_leaves:
  "preserves inv (modalElem E)" "preserves inv (shadowElem E)" "preserves inv (closeElem E)"
  "preserves inv (show_elem e)" "preserves inv (hide e)" "preserves inv (trigger cb v)"
  by (simp_all add: preserves_def modalElem_inv shadowElem_inv closeElem_inv inv_show_elem
      inv_hide trigger_def)

lemma show_inv: "inv s \<Longrightarrow> inv (snd (iface_show E s))"
  using preserves_show [of inv E, OF inv_leaves(2,3,1,4,6)] by (simp add: preserves_def)

lemma close_inv: "inv s \<Longrightarrow> inv (snd (close E s))"
  using preserves_close [of inv E, OF inv_leaves(2,1,5,6)] by (simp add: preserves_def)

subsection \<open>show and close, step by step\<close>

lemma destroyed_calls:
  assumes "inv s" "\<not> modalElemVar s"
  shows "iface_show E s = (Inl TypeError, s)" "close E s = (Inl TypeError, s)"
    "iface_destroy E s = (Inl TypeError, s)"
  using assms
  by (simp_all add: inv_def vars_ok_def iface_show_def close_def iface_destroy_def
      and_then_def call_var_def throw_def)

lemma iface_show_run:
  assumes "inv s" "modalElemVar s"
  obtains (ok) t h m where
    "iface_show E s = (Inr Facade, t)"
    "t = s\<lparr>nodes := nodes t, objs := objs t, place := place t,
        timers := timers s @ created s @ map (\<lambda>c. (c, Facade)) (afterShowEvent s),
        modalMemo := modalMemo t, shadowMemo := shadowMemo t, closeMemo := closeMemo t\<rparr>"
    "\<not> notCalled (shadowMemo t)" "result (shadowMemo t) = Handle h"
    "\<not> notCalled (modalMemo t)" "result (modalMemo t) = Handle m"
    "\<not> notCalled (closeMemo t)"
    "h < length (nodes t)" "m < length (nodes t)"
    "style (nodes t ! h) \<noteq> []" "last (style (nodes t ! h)) = (''display'', SStr ''block'')"
    "style (nodes t ! m) \<noteq> []" "last (style (nodes t ! m)) = (''display'', SStr ''block'')"
  | (threw) t where "iface_show E s = (Inl HierarchyRequestError, t)" "\<not> accepts E (opts s)"
    "fired t = fired s" "timers t = timers s \<or> timers t = timers s @ created s"
proof -
  have vars: "shadowElemVar s" "closeElemVar s"
    using assms inv_vars(1,2) by simp_all
  obtain r1 S1 where e1: "shadowElem E s = (r1, S1)" by (cases "shadowElem E s")
  note f1 = shadowElem_eff [OF e1]
  have i1: "inv S1" using shadowElem_inv [OF assms(1), of E] e1 by simp
  obtain h where h: "result (shadowMemo S1) = Handle h" "h < length (nodes S1)"
    using i1 f1(4) by (rule inv_shadow_called)
  have e1': "shadowElem E s = (Inr (Handle h), S1)" using e1 f1(5) h by simp
  define S2 where "S2 = snd (show_elem h S1)"
  have S2_eq: "S2 = S1\<lparr>nodes := (nodes S1)[h := (nodes S1 ! h)\<lparr>style := style (nodes S1 ! h) @ [(''display'', SStr ''block'')]\<rparr>]\<rparr>"
    by (simp add: S2_def show_elem_def map_node_def)
  have e2: "show_elem h S1 = (Inr Undefined, S2)" by (simp add: S2_def show_elem_def)
  have i2: "inv S2" unfolding S2_def using i1 by (rule inv_show_elem)
  have p1: "opts S1 = opts s" "afterShowEvent S1 = afterShowEvent s"
    "afterCreateEvent S1 = afterCreateEvent s" "modalMemo S1 = modalMemo s"
    "closeElemVar S1 = closeElemVar s" "modalElemVar S1 = modalElemVar s"
    "timers S1 = timers s" "closeMemo S1 = closeMemo s"
    using arg_cong [OF f1(1), of opts] arg_cong [OF f1(1), of afterShowEvent]
      arg_cong [OF f1(1), of afterCreateEvent] arg_cong [OF f1(1), of modalMemo]
      arg_cong [OF f1(1), of closeElemVar] arg_cong [OF f1(1), of modalElemVar]
      arg_cong [OF f1(1), of timers] arg_cong [OF f1(1), of closeMemo]
    by simp_all
  have p2: "opts S2 = opts s" "afterShowEvent S2 = afterShowEvent s"
    "afterCreateEvent S2 = afterCreateEvent s" "modalMemo S2 = modalMemo s"
    "closeElemVar S2" "modalElemVar S2" "timers S2 = timers s" "created S2 = created s"
    "shadowMemo S2 = shadowMemo S1"
    using p1 vars assms(2) by (simp_all add: S2_eq created_def)
  obtain r3 S3 where e3: "closeElem E S2 = (r3, S3)" by (cases "closeElem E S2")
  note f3 = closeElem_eff [OF i2 e3]
  have i3: "inv S3" using closeElem_inv [OF i2, of E] e3 by simp
  have p3: "opts S3 = opts s" "afterShowEvent S3 = afterShowEvent s"
    "afterCreateEvent S3 = afterCreateEvent s" "modalElemVar S3"
    "shadowMemo S3 = shadowMemo S1" "fired S3 = fired S2"
    using arg_cong [OF f3(1), of opts] arg_cong [OF f3(1), of afterShowEvent]
      arg_cong [OF f3(1), of afterCreateEvent] arg_cong [OF f3(1), of modalElemVar]
      arg_cong [OF f3(1), of shadowMemo] arg_cong [OF f3(1), of fired] p2
    by simp_all
  show ?thesis
  proof (cases "notCalled (closeMemo S3)")
    case True
    then have r3: "r3 = Inl HierarchyRequestError" and na: "\<not> accepts E (opts s)"
      using f3(7) p2 by simp_all
    have "iface_show E s = (Inl HierarchyRequestError, S3)"
      using vars p2(5) e3 [unfolded r3]
      by (simp add: iface_show_def and_then_def call_var_def e1' e2)
    moreover have "fired S3 = fired s"
      using p3(6) arg_cong [OF f1(1), of fired] by (simp add: S2_eq)
    moreover have "timers S3 = timers s \<or> timers S3 = timers s @ created s"
      using f3(4) p2 by auto
    ultimately show ?thesis using na by (intro threw)
  next
    case c3: False
    then have r3: "r3 = Inr (result (closeMemo S3))" using f3(6) by simp
    obtain r4 S4 where e4: "modalElem E S3 = (r4, S4)" by (cases "modalElem E S3")
    note f4 = modalElem_eff [OF e4]
    have i4: "inv S4" using modalElem_inv [OF i3, of E] e4 by simp
    show ?thesis
    proof (cases "notCalled (modalMemo S4)")
      case True
      then have r4: "r4 = Inl HierarchyRequestError" and na: "\<not> accepts E (opts s)"
        using f4(5) p3 by (simp_all add: accepts_def)
      have "iface_show E s = (Inl HierarchyRequestError, S4)"
        using vars p2(5) p3(4) e3 [unfolded r3] e4 [unfolded r4]
        by (simp add: iface_show_def and_then_def call_var_def e1' e2)
      moreover have "fired S4 = fired s"
        using p3(6) arg_cong [OF f1(1), of fired] arg_cong [OF f4(1), of fired]
        by (simp add: S2_eq)
      moreover have "timers S4 = timers s \<or> timers S4 = timers s @ created s"
        using f4(4,5) f3(4) True p2 by simp
      ultimately show ?thesis using na by (intro threw)
    next
      case c4: False
      obtain m where m: "result (modalMemo S4) = Handle m" "m < length (nodes S4)"
        using i4 c4 by (rule inv_modal_called)
      have e4': "modalElem E S3 = (Inr (Handle m), S4)" using e4 f4(6) c4 m by simp
      define S5 where "S5 = snd (show_elem m S4)"
      define S6 where "S6 = S5\<lparr>timers := trigger_loop (afterShowEvent S5) Facade (timers S5)\<rparr>"
      have S5_eq: "S5 = S4\<lparr>nodes := (nodes S4)[m := (nodes S4 ! m)\<lparr>style := style (nodes S4 ! m) @ [(''display'', SStr ''block'')]\<rparr>]\<rparr>"
        by (simp add: S5_def show_elem_def map_node_def)
      have e5: "show_elem m S4 = (Inr Undefined, S5)" by (simp add: S5_def show_elem_def)
      have e6: "trigger afterShowEvent Facade S5 = (Inr Undefined, S6)"
        by (simp add: S6_def trigger_def)
      have run: "iface_show E s = (Inr Facade, S6)"
        using vars p2(5) p3(4) e3 [unfolded r3]
        by (simp add: iface_show_def and_then_def call_var_def ret_def e1' e2 e4' e5 e6)
      have p4: "afterShowEvent S4 = afterShowEvent s" "shadowMemo S4 = shadowMemo S1"
        "closeMemo S4 = closeMemo S3"
        using arg_cong [OF f4(1), of afterShowEvent] arg_cong [OF f4(1), of shadowMemo]
          arg_cong [OF f4(1), of closeMemo] p3
        by simp_all
      have t3: "timers S3 = timers s @
          (if notCalled (modalMemo s) \<and> \<not> notCalled (modalMemo S3) then created s else [])"
        using f3(4) p2 by simp
      have cr3: "created S3 = (if notCalled (modalMemo S3) then created s else [])"
        using f3(5) p2(4) p3(3) by (auto simp add: created_def)
      have t4: "timers S4 = timers s @ created s"
        using f4(4) c4 t3 cr3 f3(5) p2(4) by (auto simp add: created_called)
      have tm: "timers S6 = timers s @ created s @ map (\<lambda>c. (c, Facade)) (afterShowEvent s)"
        by (simp add: S6_def S5_eq trigger_loop_eq t4 p4)
      obtain xs3 where x3: "nodes S3 = nodes S2 @ xs3" using f3(2) by blast
      obtain xs4 where x4: "nodes S4 = nodes S3 @ xs4" using f4(2) by blast
      have len: "length (nodes S6) = length (nodes S4)" "length (nodes S2) = length (nodes S1)"
        by (simp_all add: S6_def S5_eq S2_eq)
      have h4: "h < length (nodes S4)" using h(2) by (simp add: x4 x3 S2_eq)
      have n4: "nodes S4 ! h = nodes S2 ! h"
        using h(2) by (simp add: x4 x3 S2_eq nth_append)
      have dm: "style (nodes S6 ! m) \<noteq> []"
        "last (style (nodes S6 ! m)) = (''display'', SStr ''block'')"
        using m(2) by (simp_all add: S6_def S5_eq)
      have dh: "style (nodes S6 ! h) \<noteq> [] \<and>
        last (style (nodes S6 ! h)) = (''display'', SStr ''block'')"
      proof (cases "h = m")
        case True
        then show ?thesis using dm by simp
      next
        case False
        then have "nodes S6 ! h = nodes S4 ! h" by (simp add: S6_def S5_eq)
        then show ?thesis using h(2) by (simp add: n4 S2_eq)
      qed
      have w: "confined s S6"
      proof -
        have "confined s S1" using e1 by (rule confined_shadowElem)
        moreover have "confined S1 S2" by (simp add: S2_eq)
        moreover have "confined S2 S3" using i2 e3 by (rule confined_closeElem)
        moreover have "confined S3 S4" using e4 by (rule confined_modalElem)
        moreover have "confined S4 S6" by (simp add: S6_def S5_eq confined_def)
        ultimately show ?thesis by (blast intro: confined_trans)
      qed
      have fp: "S6 = s\<lparr>nodes := nodes S6, objs := objs S6, place := place S6,
          timers := timers S6,
          modalMemo := modalMemo S6, shadowMemo := shadowMemo S6, closeMemo := closeMemo S6\<rparr>"
        using w by (simp add: confined_def)
      show ?thesis
      proof (rule ok [where t = S6 and h = h and m = m])
        show "S6 = s\<lparr>nodes := nodes S6, objs := objs S6, place := place S6,
            timers := timers s @ created s @ map (\<lambda>c. (c, Facade)) (afterShowEvent s),
            modalMemo := modalMemo S6, shadowMemo := shadowMemo S6, closeMemo := closeMemo S6\<rparr>"
          using fp unfolding tm .
      qed (use run f1(4) h(1) c4 m c3 h4 dm dh p4 in \<open>simp_all add: S6_def S5_eq len\<close>)
    qed
  qed
qed

lemma close_run:
  assumes "inv s" "modalElemVar s"
  obtains (ok) t h m where
    "close E s = (Inr Undefined, t)"
    "t = s\<lparr>nodes := nodes t, objs := objs t, place := place t,
        timers := timers s @ created s @ map (\<lambda>c. (c, Facade)) (afterCloseEvent s),
        modalMemo := modalMemo t, shadowMemo := shadowMemo t\<rparr>"
    "\<not> notCalled (shadowMemo t)" "result (shadowMemo t) = Handle h"
    "\<not> notCalled (modalMemo t)" "result (modalMemo t) = Handle m"
    "h < length (nodes t)" "m < length (nodes t)"
    "style (nodes t ! h) \<noteq> []" "last (style (nodes t ! h)) = (''display'', SStr ''none'')"
    "style (nodes t ! m) \<noteq> []" "last (style (nodes t ! m)) = (''display'', SStr ''none'')"
  | (threw) t where "close E s = (Inl HierarchyRequestError, t)" "\<not> accepts E (opts s)"
    "fired t = fired s" "timers t = timers s"
proof -
  have vars: "shadowElemVar s"
    using assms inv_vars(1) by simp
  obtain r1 S1 where e1: "shadowElem E s = (r1, S1)" by (cases "shadowElem E s")
  note f1 = shadowElem_eff [OF e1]
  have i1: "inv S1" using shadowElem_inv [OF assms(1), of E] e1 by simp
  obtain h where h: "result (shadowMemo S1) = Handle h" "h < length (nodes S1)"
    using i1 f1(4) by (rule inv_shadow_called)
  have e1': "shadowElem E s = (Inr (Handle h), S1)" using e1 f1(5) h by simp
  define S2 where "S2 = snd (hide h S1)"
  have S2_eq: "S2 = S1\<lparr>nodes := (nodes S1)[h := (nodes S1 ! h)\<lparr>style := style (nodes S1 ! h) @ [(''display'', SStr ''none'')]\<rparr>]\<rparr>"
    by (simp add: S2_def hide_def map_node_def)
  have e2: "hide h S1 = (Inr Undefined, S2)" by (simp add: S2_def hide_def)
  have i2: "inv S2" unfolding S2_def using i1 by (rule inv_hide)
  have w1: "confined s S1" using e1 by (rule confined_shadowElem)
  have w2: "confined s S2" using w1 by (rule confined_trans) (simp add: S2_eq)
  have p1: "modalMemo S1 = modalMemo s" "timers S1 = timers s" "closeMemo S1 = closeMemo s"
    using arg_cong [OF f1(1), of modalMemo] arg_cong [OF f1(1), of timers]
      arg_cong [OF f1(1), of closeMemo] by simp_all
  have p2: "opts S2 = opts s" "afterCloseEvent S2 = afterCloseEvent s"
    "modalElemVar S2" "timers S2 = timers s" "created S2 = created s"
    "shadowMemo S2 = shadowMemo S1" "closeMemo S2 = closeMemo s"
    using confined_fields [OF w2] p1 assms(2) by (simp_all add: S2_eq created_def)
  obtain r4 S4 where e4: "modalElem E S2 = (r4, S4)" by (cases "modalElem E S2")
  note f4 = modalElem_eff [OF e4]
  have i4: "inv S4" using modalElem_inv [OF i2, of E] e4 by simp
  have w4: "confined s S4" using w2 confined_modalElem [OF e4] by (rule confined_trans)
  show ?thesis
  proof (cases "notCalled (modalMemo S4)")
    case True
    then have r4: "r4 = Inl HierarchyRequestError" and na: "\<not> accepts E (opts s)"
      using f4(5) p2 by (simp_all add: accepts_def)
    have "close E s = (Inl HierarchyRequestError, S4)"
      using vars p2(3) e4 [unfolded r4]
      by (simp add: close_def and_then_def call_var_def e1' e2)
    moreover have "fired S4 = fired s" using confined_fields(2) [OF w4] .
    moreover have "timers S4 = timers s" using f4(4) True p2 by simp
    ultimately show ?thesis using na by (intro threw)
  next
    case c4: False
    obtain m where m: "result (modalMemo S4) = Handle m" "m < length (nodes S4)"
      using i4 c4 by (rule inv_modal_called)
    have e4': "modalElem E S2 = (Inr (Handle m), S4)" using e4 f4(6) c4 m by simp
    define S5 where "S5 = snd (hide m S4)"
    define S6 where "S6 = S5\<lparr>timers := trigger_loop (afterCloseEvent S5) Facade (timers S5)\<rparr>"
    have S5_eq: "S5 = S4\<lparr>nodes := (nodes S4)[m := (nodes S4 ! m)\<lparr>style := style (nodes S4 ! m) @ [(''display'', SStr ''none'')]\<rparr>]\<rparr>"
      by (simp add: S5_def hide_def map_node_def)
    have e5: "hide m S4 = (Inr Undefined, S5)" by (simp add: S5_def hide_def)
    have e6: "trigger afterCloseEvent Facade S5 = (Inr Undefined, S6)"
      by (simp add: S6_def trigger_def)
    have run: "close E s = (Inr Undefined, S6)"
      using vars p2(3)
      by (simp add: close_def and_then_def call_var_def ret_def e1' e2 e4' e5 e6)
    have p4: "afterCloseEvent S4 = afterCloseEvent s" "shadowMemo S4 = shadowMemo S1"
      "closeMemo S4 = closeMemo s"
      using confined_fields [OF w4] arg_cong [OF f4(1), of shadowMemo]
        arg_cong [OF f4(1), of closeMemo] p2
      by simp_all
    have t4: "timers S4 = timers s @ created s"
      using f4(4) c4 p2 by simp
    have tm: "timers S6 = timers s @ created s @ map (\<lambda>c. (c, Facade)) (afterCloseEvent s)"
      by (simp add: S6_def S5_eq trigger_loop_eq t4 p4)
    obtain xs4 where x4: "nodes S4 = nodes S2 @ xs4" using f4(2) by blast
    have len: "length (nodes S6) = length (nodes S4)" "length (nodes S2) = length (nodes S1)"
      by (simp_all add: S6_def S5_eq S2_eq)
    have h4: "h < length (nodes S4)" using h(2) by (simp add: x4 S2_eq)
    have n4: "nodes S4 ! h = nodes S2 ! h"
      using h(2) by (simp add: x4 S2_eq nth_append)
    have dm: "style (nodes S6 ! m) \<noteq> []"
      "last (style (nodes S6 ! m)) = (''display'', SStr ''none'')"
      using m(2) by (simp_all add: S6_def S5_eq)
    have dh: "style (nodes S6 ! h) \<noteq> [] \<and>
      last (style (nodes S6 ! h)) = (''display'', SStr ''none'')"
    proof (cases "h = m")
      case True
      then show ?thesis using dm by simp
    next
      case False
      then have "nodes S6 ! h = nodes S4 ! h" by (simp add: S6_def S5_eq)
      then show ?thesis using h(2) by (simp add: n4 S2_eq)
    qed
    have w: "confined s S6"
      using w4 by (rule confined_trans) (simp add: S6_def S5_eq confined_def)
    have c6: "closeMemo S6 = closeMemo s" using p4 by (simp add: S6_def S5_eq)
    have fp: "S6 = s\<lparr>nodes := nodes S6, objs := objs S6, place := place S6,
        timers := timers S6, modalMemo := modalMemo S6, shadowMemo := shadowMemo S6\<rparr>"
    proof -
      have "s\<lparr>nodes := nodes S6, objs := objs S6, place := place S6,
          timers := timers S6, modalMemo := modalMemo S6, shadowMemo := shadowMemo S6\<rparr> =
        s\<lparr>nodes := nodes S6, objs := objs S6, place := place S6,
          timers := timers S6, modalMemo := modalMemo S6, shadowMemo := shadowMemo S6,
          closeMemo := closeMemo S6\<rparr>"
        unfolding c6 by simp
      with w show ?thesis by (simp add: confined_def)
    qed
    show ?thesis
    proof (rule ok [where t = S6 and h = h and m = m])
      show "S6 = s\<lparr>nodes := nodes S6, objs := objs S6, place := place S6,
          timers := timers s @ created s @ map (\<lambda>c. (c, Facade)) (afterCloseEvent s),
          modalMemo := modalMemo S6, shadowMemo := shadowMemo S6\<rparr>"
        using fp unfolding tm .
    qed (use run f1(4) h(1) c4 m h4 dm dh p4 in \<open>simp_all add: S6_def S5_eq len\<close>)
  qed
qed

subsection \<open>destroy\<close>

lemma detach_class: "className (detach e ns ! i) = className (ns ! i)"
  by (cases "i = e"; cases "e < length ns") (simp_all add: detach_def list_update_beyond)

lemma detach_listeners: "listeners (detach e ns ! i) = listeners (ns ! i)"
  by (cases "i = e"; cases "e < length ns") (simp_all add: detach_def list_update_beyond)

lemma detach_parent: "i \<noteq> e \<Longrightarrow> parentNode (detach e ns ! i) = parentNode (ns ! i)"
  by (simp add: detach_def)

lemma detach_length [simp]: "length (detach e ns) = length ns"
  by (simp add: detach_def)

lemma modal_node_detach:
  "modal_node ns True (Handle m) \<Longrightarrow> modal_node (detach m ns) False (Handle m)"
  by (simp add: detach_def)

lemma shadow_node_detach:
  "shadow_node ns x True (Handle h) \<Longrightarrow> shadow_node (detach h ns) x False (Handle h)"
  by (simp add: detach_def)

lemma modal_node_detach_other:
  assumes "modal_node ns var v" "className (ns ! e) \<noteq> ''pico-content''"
  shows "modal_node (detach e ns) var v"
proof -
  from assms(1) obtain m where m: "v = Handle m" "m < length ns"
    "className (ns ! m) = ''pico-content''"
    "parentNode (ns ! m) = (if var then PBody else PNone)"
    by (rule modal_nodeE)
  have "m \<noteq> e" using m(3) assms(2) by auto
  then show ?thesis using m by (simp add: detach_class detach_parent)
qed

lemma shadow_node_detach_other:
  assumes "shadow_node ns x var v" "className (ns ! e) \<noteq> ''pico-overlay''"
  shows "shadow_node (detach e ns) x var v"
proof -
  from assms(1) obtain h where h: "v = Handle h" "h < length ns"
    "className (ns ! h) = ''pico-overlay''"
    "listeners (ns ! h) = [if getOption x overlayClose True then CloseFn else NoopFn]"
    "parentNode (ns ! h) = (if var then PBody else PNone)"
    by (rule shadow_nodeE)
  have "h \<noteq> e" using h(3) assms(2) by auto
  then show ?thesis using h by (simp add: detach_class detach_listeners detach_parent)
qed

lemma close_node_detach:
  assumes "close_node ns u v" "className (ns ! e) \<noteq> ''pico-close''"
  shows "close_node (detach e ns) u v"
proof -
  from assms(1) obtain m c where c: "u = Handle m" "v = Handle c" "c < length ns"
    "className (ns ! c) = ''pico-close''" "listeners (ns ! c) = [CloseFn]"
    "parentNode (ns ! c) = PElem m"
    by (rule close_nodeE)
  have "c \<noteq> e" using c(4) assms(2) by auto
  then show ?thesis using c by (simp add: detach_class detach_listeners detach_parent)
qed

lemma iface_destroy_run:
  assumes "inv s" "modalElemVar s"
  obtains (ok) t where
    "iface_destroy E s = (Inr Undefined, t)"
    "inv t"
    "opts t = opts s" "closeMemo t = closeMemo s" "fired t = fired s"
    "timers t = timers s @ created s"
    "\<not> modalElemVar t" "\<not> shadowElemVar t" "\<not> closeElemVar t"
    "\<forall>r. objs t r = objs s r \<or> objs t r = set_filter E (objs s r)"
    "modalMemo t = modalMemo (snd (modalElem E s))"
    "notCalled (shadowMemo s) \<longrightarrow> runs (shadowMemo t) = Suc (runs (shadowMemo s))"
    "\<not> notCalled (shadowMemo s) \<longrightarrow> shadowMemo t = shadowMemo s"
    "\<not> notCalled (shadowMemo t)"
  | (threw) "iface_destroy E s = (Inl HierarchyRequestError, snd (modalElem E s))"
    "\<not> accepts E (opts s)"
proof -
  have vars: "shadowElemVar s" "closeElemVar s"
    using assms inv_vars(1,2) by simp_all
  obtain r1 S1 where e1: "modalElem E s = (r1, S1)" by (cases "modalElem E s")
  note f1 = modalElem_eff [OF e1]
  have i1: "inv S1" using modalElem_inv [OF assms(1), of E] e1 by simp
  have w1: "confined s S1" using e1 by (rule confined_modalElem)
  show ?thesis
  proof (cases "notCalled (modalMemo S1)")
    case True
    then have r1: "r1 = Inl HierarchyRequestError" and na: "\<not> accepts E (opts s)"
      using f1(5) by (simp_all add: accepts_def)
    have "iface_destroy E s = (Inl HierarchyRequestError, snd (modalElem E s))"
      using assms(2) e1 [unfolded r1]
      by (simp add: iface_destroy_def and_then_def call_var_def)
    then show ?thesis using na by (rule threw)
  next
    case c1: False
    have v1: "modalElemVar S1" "shadowElemVar S1" "closeElemVar S1"
      using confined_fields [OF w1] assms(2) vars by simp_all
    obtain m where m: "result (modalMemo S1) = Handle m" "m < length (nodes S1)"
      "className (nodes S1 ! m) = ''pico-content''"
      "parentNode (nodes S1 ! m) = (if modalElemVar S1 then PBody else PNone)"
      using i1 c1 by (rule inv_modal_called)
    have e1': "modalElem E s = (Inr (Handle m), S1)" using e1 f1(6) c1 m by simp
    define S3 where "S3 = S1\<lparr>nodes := detach m (nodes S1), modalElemVar := False\<rparr>"
    have e2: "destroy_elem m S1 = (Inr Undefined, S1\<lparr>nodes := detach m (nodes S1)\<rparr>)"
      using m v1 by (simp add: destroy_elem_def map_node_def detach_def)
    have so3: "notCalled (shadowMemo S3) \<or>
      shadow_node (nodes S3) (opts S3) True (result (shadowMemo S3))"
    proof (cases "notCalled (shadowMemo S1)")
      case True
      then show ?thesis by (simp add: S3_def)
    next
      case False
      then have "shadow_node (nodes S1) (opts S1) (shadowElemVar S1) (result (shadowMemo S1))"
        using i1 by (simp add: inv_def shadow_ok_def)
      then have "shadow_node (detach m (nodes S1)) (opts S1) (shadowElemVar S1) (result (shadowMemo S1))"
        by (rule shadow_node_detach_other) (simp add: m)
      then show ?thesis using v1 by (simp add: S3_def)
    qed
    obtain r4 S4 where e4: "shadowElem E S3 = (r4, S4)" by (cases "shadowElem E S3")
    note f4 = shadowElem_eff [OF e4]
    obtain xs where xs: "nodes S4 = nodes S3 @ xs" using f4(2) by blast
    have p4: "opts S4 = opts S3" "modalMemo S4 = modalMemo S3" "closeMemo S4 = closeMemo S3"
      "timers S4 = timers S3"
      using arg_cong [OF f4(1), of opts] arg_cong [OF f4(1), of modalMemo]
        arg_cong [OF f4(1), of closeMemo] arg_cong [OF f4(1), of timers] by simp_all
    have sn4: "shadow_node (nodes S4) (opts S4) True (result (shadowMemo S4))"
    proof (rule shadowElem_cases [of S3 E])
      assume a: "\<not> notCalled (shadowMemo S3)" "shadowElem E S3 = (Inr (result (shadowMemo S3)), S3)"
      then have "S4 = S3" using e4 by simp
      then show ?thesis using so3 a(1) by simp
    next
      fix n ob
      assume a: "notCalled (shadowMemo S3)"
        "shadowElem E S3 = (Inr (Handle (length (nodes S3))),
           S3\<lparr>nodes := nodes S3 @ [n], objs := ob,
             shadowMemo := \<lparr>notCalled = False, result = Handle (length (nodes S3)),
               runs = Suc (runs (shadowMemo S3))\<rparr>\<rparr>)"
        "parentNode n = PBody" "className n = ''pico-overlay''"
        "listeners n = [if getOption (opts S3) overlayClose True then CloseFn else NoopFn]"
      have "S4 = S3\<lparr>nodes := nodes S3 @ [n], objs := ob,
             shadowMemo := \<lparr>notCalled = False, result = Handle (length (nodes S3)),
               runs = Suc (runs (shadowMemo S3))\<rparr>\<rparr>"
        using a(2) e4 by simp
      then show ?thesis using a(3-5) by simp
    qed
    then obtain h where h: "result (shadowMemo S4) = Handle h" "h < length (nodes S4)"
      "className (nodes S4 ! h) = ''pico-overlay''" "parentNode (nodes S4 ! h) = PBody"
      by (rule shadow_nodeE) simp
    have e4': "shadowElem E S3 = (Inr (Handle h), S4)" using e4 f4(5) h by simp
    define S7 where "S7 = S4\<lparr>nodes := detach h (nodes S4), shadowElemVar := False, closeElemVar := False\<rparr>"
    have e5: "destroy_elem h S4 = (Inr Undefined, S4\<lparr>nodes := detach h (nodes S4)\<rparr>)"
      using h by (simp add: destroy_elem_def map_node_def detach_def)
    have v3: "shadowElemVar S3" using v1 by (simp add: S3_def)
    have run: "iface_destroy E s = (Inr Undefined, S7)"
      using assms(2) v1 v3
      by (simp add: iface_destroy_def and_then_def call_var_def e1' e2 e4' e5
          S3_def [symmetric] S7_def [symmetric])
    have v4: "\<not> modalElemVar S4" "shadowElemVar S4"
      using arg_cong [OF f4(1), of modalElemVar] arg_cong [OF f4(1), of shadowElemVar] v3
      by (simp_all add: S3_def)
    have mn1: "modal_node (nodes S1) True (Handle m)" using m v1 by simp
    have 1: "modal_ok S7"
    proof -
      have "modal_node (detach m (nodes S1)) False (Handle m)"
        using mn1 by (rule modal_node_detach)
      then have "modal_node (detach m (nodes S1) @ xs) False (Handle m)"
        by (rule modal_node_append)
      then have "modal_node (nodes S4) False (Handle m)"
        by (simp add: xs S3_def)
      then have "modal_node (detach h (nodes S4)) False (Handle m)"
        by (rule modal_node_detach_other) (simp add: h)
      then show ?thesis using m(1) c1 v4 by (simp add: modal_ok_def S7_def p4 S3_def)
    qed
    have 2: "shadow_ok S7"
    proof -
      have "shadow_node (detach h (nodes S4)) (opts S4) False (Handle h)"
        using sn4 unfolding h(1) by (rule shadow_node_detach)
      then show ?thesis using h(1) by (simp add: shadow_ok_def S7_def)
    qed
    have 3: "close_ok S7"
    proof (cases "\<not> notCalled (closeMemo S1) \<and> getOption (opts S1) closeButton True")
      case True
      then have "close_node (nodes S1) (result (modalMemo S1)) (result (closeMemo S1))"
        using i1 by (simp_all add: inv_def close_ok_def)
      then have "close_node (detach m (nodes S1)) (result (modalMemo S1)) (result (closeMemo S1))"
        by (intro close_node_detach) (simp_all add: m)
      then have "close_node (detach m (nodes S1) @ xs) (result (modalMemo S1)) (result (closeMemo S1))"
        by (rule close_node_append)
      then have "close_node (nodes S4) (result (modalMemo S1)) (result (closeMemo S1))"
        by (simp add: xs S3_def)
      then have "close_node (detach h (nodes S4)) (result (modalMemo S1)) (result (closeMemo S1))"
        by (rule close_node_detach) (simp add: h)
      then show ?thesis using True c1
        by (simp add: close_ok_def S7_def p4 S3_def)
    next
      case False
      then show ?thesis using i1
        by (auto simp add: inv_def close_ok_def S7_def p4 S3_def)
    qed
    have 4: "vars_ok S7"
      using v4 c1 f4(4) by (simp add: vars_ok_def S7_def p4 S3_def)
    have ob: "\<forall>r. objs S7 r = objs s r \<or> objs S7 r = set_filter E (objs s r)"
    proof -
      have "\<forall>r. objs S4 r = objs S1 r \<or> objs S4 r = set_filter E (objs S1 r)"
        using f4(3) by (simp add: S3_def)
      with f1(3) have "\<forall>r. objs S4 r = objs s r \<or> objs S4 r = set_filter E (objs s r)"
        by (rule filter_rel_trans)
      then show ?thesis by (simp add: S7_def)
    qed
    have t7: "timers S7 = timers s @ created s"
      using f1(4) c1 by (simp add: S7_def p4 S3_def)
    have q1: "opts S1 = opts s" "closeMemo S1 = closeMemo s" "fired S1 = fired s"
      using arg_cong [OF f1(1), of opts] arg_cong [OF f1(1), of closeMemo]
        arg_cong [OF f1(1), of fired] by simp_all
    have q4: "fired S4 = fired S3"
      using arg_cong [OF f4(1), of fired] by simp
    show ?thesis
    proof (rule ok [where t = S7])
      show "inv S7" using 1 2 3 4 by (simp add: inv_def)
      show "opts S7 = opts s" "closeMemo S7 = closeMemo s" "fired S7 = fired s"
        using q1 q4 by (simp_all add: S7_def p4 S3_def)
      show "\<not> modalElemVar S7" "\<not> shadowElemVar S7" "\<not> closeElemVar S7"
        using v4 by (simp_all add: S7_def)
      show "modalMemo S7 = modalMemo (snd (modalElem E s))"
        using e1 by (simp add: S7_def p4 S3_def)
      show "notCalled (shadowMemo s) \<longrightarrow> runs (shadowMemo S7) = Suc (runs (shadowMemo s))"
        using f4(7) arg_cong [OF f1(1), of shadowMemo] by (simp add: S7_def S3_def)
      show "\<not> notCalled (shadowMemo s) \<longrightarrow> shadowMemo S7 = shadowMemo s"
        using f4(6) arg_cong [OF f1(1), of shadowMemo] by (auto simp add: S7_def S3_def)
      show "\<not> notCalled (shadowMemo S7)" using f4(4) by (simp add: S7_def)
    qed (use run ob t7 in simp_all)
  qed
qed

subsection \<open>Every step keeps the invariant\<close>

lemma destroy_inv: "inv s \<Longrightarrow> inv (snd (iface_destroy E s))"
proof (cases "modalElemVar s")
  case True
  assume i: "inv s"
  from i True show ?thesis
  proof (cases rule: iface_destroy_run [where E = E])
    case (ok t)
    then show ?thesis by simp
  next
    case threw
    then show ?thesis using modalElem_inv [OF i, of E] by simp
  qed
next
  case False
  assume "inv s"
  then show ?thesis using False by (simp add: destroyed_calls)
qed

lemma snd_and_then_elem_of: "snd (and_then m elem_of s) = snd (m s)"
proof (cases "m s")
  case (Pair r t)
  then show ?thesis
    by (cases r; cases "projr r") (simp_all add: and_then_def ret_def throw_def)
qed

lemma snd_returnIface: "snd (returnIface m s) = snd (m s)"
  by (cases "m s"; cases "fst (m s)") (simp_all add: returnIface_def and_then_def ret_def)

lemma inv_watch:
  "inv (afterCreateEvent_update f s) = inv s"
  "inv (afterShowEvent_update f s) = inv s"
  "inv (afterCloseEvent_update f s) = inv s"
  by (simp_all add: inv_defs)

lemma tick_inv: "inv s \<Longrightarrow> inv (tick s)"
  by (simp add: tick_def split: list.split)

lemma preserves_step:
  assumes "preserves P (iface_show E)" "preserves P (close E)" "preserves P (iface_destroy E)"
    "preserves P (modalElem E)" "preserves P (closeElem E)" "preserves P (shadowElem E)"
    "\<And>c. preserves P (watch afterCreateEvent_update c)"
    "\<And>c. preserves P (watch afterShowEvent_update c)"
    "\<And>c. preserves P (watch afterCloseEvent_update c)"
    "preserves P (\<lambda>s. (Inr Undefined, tick s))"
  shows "preserves P (step E x)"
  by (cases x)
    (simp_all add: assms preserves_returnIface preserves_accessor preserves_click_on)

lemma preserves_run:
  assumes "\<And>x. preserves P (step E x)"
  shows "P s \<Longrightarrow> P (run E xs s)"
  unfolding run_def using assms
  by (induction xs arbitrary: s) (auto simp add: preserves_def)

lemma step_inv: "preserves inv (step E x)"
  by (rule preserves_step)
    (simp_all add: preserves_def show_inv close_inv destroy_inv modalElem_inv closeElem_inv
      shadowElem_inv watch_def inv_watch tick_inv)

lemma run_inv: "inv s \<Longrightarrow> inv (run E xs s)"
  by (rule preserves_run) (rule step_inv)

lemma picoModal_inv: "inv (picoModal a w)"
  by (simp add: picoModal_def inv_defs)

lemma reachable_inv: "inv (run E xs (picoModal a w))"
  by (rule run_inv) (rule picoModal_inv)

subsection \<open>The frame of a step, and the three variables\<close>

lemma frame_refl [simp]: "frame E s s"
  by (simp add: frame_def)

lemma frame_trans: "frame E s t \<Longrightarrow> frame E t u \<Longrightarrow> frame E s u"
  unfolding frame_def using filter_rel_trans [of "objs t" "objs s" E "objs u"] by simp

lemma stays_refl: "inv s \<Longrightarrow> stays E s s"
  by (simp add: stays_def)

lemma stays_leaf:
  assumes "\<And>s. inv s \<Longrightarrow> stays E s (snd (m s))"
  shows "preserves (stays E s0) m"
proof -
  have "stays E s0 (snd (m t))" if "stays E s0 t" for t
  proof -
    have "inv t" using that by (simp add: stays_def)
    then have "stays E t (snd (m t))" by (rule assms)
    with that show ?thesis by (auto simp add: stays_def intro: frame_trans)
  qed
  then show ?thesis by (simp add: preserves_def)
qed

lemma stays_modalElem: "inv s \<Longrightarrow> stays E s (snd (modalElem E s))"
proof -
  assume i: "inv s"
  obtain r t where e: "modalElem E s = (r, t)" by (cases "modalElem E s")
  note f = modalElem_eff [OF e] confined_fields [OF confined_modalElem [OF e]]
  show ?thesis using modalElem_inv [OF i, of E] e f(3,9,14) by (simp add: stays_def frame_def)
qed

lemma stays_shadowElem: "inv s \<Longrightarrow> stays E s (snd (shadowElem E s))"
proof -
  assume i: "inv s"
  obtain r t where e: "shadowElem E s = (r, t)" by (cases "shadowElem E s")
  note f = shadowElem_eff [OF e] confined_fields [OF confined_shadowElem [OF e]]
  show ?thesis using shadowElem_inv [OF i, of E] e f(3,8,13) by (simp add: stays_def frame_def)
qed

lemma stays_closeElem: "inv s \<Longrightarrow> stays E s (snd (closeElem E s))"
proof -
  assume i: "inv s"
  obtain r t where e: "closeElem E s = (r, t)" by (cases "closeElem E s")
  note f = closeElem_eff [OF i e] confined_fields [OF confined_closeElem [OF i e]]
  show ?thesis using closeElem_inv [OF i, of E] e f(3,12,17) by (simp add: stays_def frame_def)
qed

lemma stays_leaves:
  "preserves (stays E s0) (modalElem E)" "preserves (stays E s0) (shadowElem E)"
  "preserves (stays E s0) (closeElem E)"
  "preserves (stays E s0) (show_elem e)" "preserves (stays E s0) (hide e)"
  "preserves (stays E s0) (trigger cb v)"
  "preserves (stays E s0) (watch afterCreateEvent_update c)"
  "preserves (stays E s0) (watch afterShowEvent_update c)"
  "preserves (stays E s0) (watch afterCloseEvent_update c)"
  "preserves (stays E s0) (\<lambda>s. (Inr Undefined, tick s))"
proof -
  show "preserves (stays E s0) (modalElem E)" by (rule stays_leaf) (rule stays_modalElem)
  show "preserves (stays E s0) (shadowElem E)" by (rule stays_leaf) (rule stays_shadowElem)
  show "preserves (stays E s0) (closeElem E)" by (rule stays_leaf) (rule stays_closeElem)
  show "preserves (stays E s0) (show_elem e)"
    using inv_show_elem [of _ e]
    by (simp add: preserves_def stays_def) (simp add: show_elem_def map_node_def frame_def)
  show "preserves (stays E s0) (hide e)"
    using inv_hide [of _ e]
    by (simp add: preserves_def stays_def) (simp add: hide_def map_node_def frame_def)
  show "preserves (stays E s0) (trigger cb v)"
    by (simp add: preserves_def stays_def trigger_def frame_def)
  show "preserves (stays E s0) (watch afterCreateEvent_update c)"
    "preserves (stays E s0) (watch afterShowEvent_update c)"
    "preserves (stays E s0) (watch afterCloseEvent_update c)"
    by (simp_all add: preserves_def stays_def watch_def frame_def inv_watch)
  show "preserves (stays E s0) (\<lambda>s. (Inr Undefined, tick s))"
    by (simp add: preserves_def stays_def) (simp add: tick_def frame_def split: list.split)
qed

lemma stays_show: "preserves (stays E s0) (iface_show E)"
  by (rule preserves_show) (rule stays_leaves)+

lemma stays_close: "preserves (stays E s0) (close E)"
  by (rule preserves_close) (rule stays_leaves)+

lemma frame_destroy: "inv s \<Longrightarrow> frame E s (snd (iface_destroy E s))"
proof (cases "modalElemVar s")
  case True
  assume i: "inv s"
  from i True show ?thesis
  proof (cases rule: iface_destroy_run [where E = E])
    case (ok t)
    then show ?thesis by (simp add: frame_def)
  next
    case threw
    then show ?thesis using stays_modalElem [OF i, of E] by (simp add: stays_def)
  qed
next
  case False
  assume "inv s"
  then show ?thesis using False by (simp add: destroyed_calls)
qed

text \<open>Every step stays in the frame; every step but \<open>destroy\<close> leaves the variables alone.\<close>

lemma stays_step:
  assumes "inv s" "x \<noteq> Destroy"
  shows "stays E s (snd (step E x s))"
proof -
  have "preserves (stays E s) (step E x)"
    using assms(2)
    by (cases x)
      (simp_all add: stays_show stays_close stays_leaves preserves_returnIface
        preserves_accessor preserves_click_on)
  then show ?thesis using stays_refl [OF assms(1)] by (simp add: preserves_def)
qed

lemma frame_step: "inv s \<Longrightarrow> frame E s (snd (step E x s))"
  using stays_step [of s x E] frame_destroy [of s E]
  by (cases "x = Destroy") (simp_all add: stays_def)

lemma frame_run: "inv s \<Longrightarrow> frame E s (run E xs s)"
proof (induction xs arbitrary: s)
  case Nil
  then show ?case by (simp add: run_def)
next
  case (Cons x xs)
  have "frame E s (snd (step E x s))" using Cons.prems by (rule frame_step)
  moreover have "inv (snd (step E x s))"
    using Cons.prems step_inv [of E x] by (simp add: preserves_def)
  then have "frame E (snd (step E x s)) (run E xs (snd (step E x s)))"
    by (rule Cons.IH)
  ultimately show ?case by (simp add: run_def frame_trans)
qed

lemma reachable_opts: "opts (run E xs (picoModal a w)) = opts (picoModal a w)"
  using frame_run [OF picoModal_inv, of E a w xs] by (simp add: frame_def)

subsection \<open>Accepted content: every step keeps the count of the runs\<close>













subsection \<open>Evaluation at a concrete input\<close>

text \<open>The definitions that evaluation at a concrete input unfolds.\<close>

lemmas eval_defs =
  run_def picoModal_def empty_page_def sample_engine_def plain_options_def page_with_def
  iface_show_def iface_destroy_def close_def returnIface_def buildElemAccessor_def
  modalElem_def shadowElem_def closeElem_def memoize_def call_var_def
  buildOverlay_def buildModal_def buildModal_elem_def buildClose_def
  make_def child_def stylize_def clazz_def html_def set_innerHTML_def getWidth_def onClick_def
  map_node_def destroy_elem_def hide_def show_elem_def
  trigger_def watch_def click_on_def click_def tick_def
  ret_def throw_def and_then_def read_option_def getOption_def
  set_filter_def apply_styles_def created_def last_style_def
  int_str_def nat_str.simps Let_def

text \<open>The sample engine accepts markup, and every node of the page but the body.\<close>

lemma accepts_sample [simp]:
  "accepts sample_engine (opts (picoModal (AStr x) w))"
  "accepts sample_engine (opts (picoModal (ANode (Suc n)) w))"
  "accepts sample_engine (plain_options x)"
  by (simp_all add: accepts_def accepted_def picoModal_def plain_options_def sample_engine_def)

subsection \<open>Memoized builders\<close>




subsection \<open>Visibility\<close>




subsection \<open>Observers\<close>

text \<open>
  C3.  In every state an instance can reach: a \<open>show()\<close> that returns has handed to
  \<open>setTimeout\<close>, in order, each callback registered with \<open>afterShow\<close>, once for each
  registration and bound to the facade, after the after-create callbacks if this call
  built the content box; the same for \<open>close\<close> and \<open>afterClose\<close>; building the content
  box schedules exactly the after-create callbacks.  None of them has been run when the
  call returns: only a turn of the event loop runs a timer.  A call of \<open>show\<close> or \<open>close\<close>
  that throws has scheduled no after-show and no after-close callback and has run none
  (it has scheduled the after-create callbacks if it built the content box before it
  threw), and it changes nothing when \<open>content\<close> and \<open>closeHtml\<close> are accepted.
  Registering a callback appends it to the list of its channel.
\<close>

theorem observers_scheduled_once:
  "let s = run E ops (picoModal a w) in
     (\<forall>v t. iface_show E s = (Inr v, t) \<longrightarrow>
        v = Facade \<and> fired t = fired s \<and>
        timers t = timers s @ created s @ map (\<lambda>c. (c, Facade)) (afterShowEvent s)) \<and>
     (\<forall>v t. close E s = (Inr v, t) \<longrightarrow>
        fired t = fired s \<and>
        timers t = timers s @ created s @ map (\<lambda>c. (c, Facade)) (afterCloseEvent s)) \<and>
     (\<forall>v t. modalElem E s = (Inr v, t) \<longrightarrow>
        fired t = fired s \<and> timers t = timers s @ created s) \<and>
     (\<forall>e t. iface_show E s = (Inl e, t) \<or> close E s = (Inl e, t) \<longrightarrow>
        fired t = fired s \<and> (timers t = timers s \<or> timers t = timers s @ created s) \<and>
        (accepts E (opts (picoModal a w)) \<longrightarrow> t = s)) \<and>
     afterShowEvent (snd (step E (AfterShow c) s)) = afterShowEvent s @ [c] \<and>
     afterCloseEvent (snd (step E (AfterClose c) s)) = afterCloseEvent s @ [c] \<and>
     afterCreateEvent (snd (step E (AfterCreate c) s)) = afterCreateEvent s @ [c]"
proof -
  define s where "s = run E ops (picoModal a w)"
  have i: "inv s" unfolding s_def by (rule reachable_inv)
  have o: "opts s = opts (picoModal a w)" unfolding s_def by (rule reachable_opts)
  have 1: "v = Facade \<and> fired t = fired s \<and>
        timers t = timers s @ created s @ map (\<lambda>c. (c, Facade)) (afterShowEvent s)"
    if r: "iface_show E s = (Inr v, t)" for v t
  proof (cases "modalElemVar s")
    case True
    from i True show ?thesis
    proof (cases rule: iface_show_run [where E = E])
      case (ok u h m)
      show ?thesis
        using r ok(1) arg_cong [OF ok(2), of fired] arg_cong [OF ok(2), of timers] by simp
    next
      case (threw u)
      then show ?thesis using r by simp
    qed
  next
    case False
    then show ?thesis using r i by (simp add: destroyed_calls)
  qed
  have 2: "fired t = fired s \<and>
        timers t = timers s @ created s @ map (\<lambda>c. (c, Facade)) (afterCloseEvent s)"
    if r: "close E s = (Inr v, t)" for v t
  proof (cases "modalElemVar s")
    case True
    from i True show ?thesis
    proof (cases rule: close_run [where E = E])
      case (ok u h m)
      show ?thesis
        using r ok(1) arg_cong [OF ok(2), of fired] arg_cong [OF ok(2), of timers] by simp
    next
      case (threw u)
      then show ?thesis using r by simp
    qed
  next
    case False
    then show ?thesis using r i by (simp add: destroyed_calls)
  qed
  have 3: "fired t = fired s \<and> timers t = timers s @ created s"
    if r: "modalElem E s = (Inr v, t)" for v t
  proof -
    note f = modalElem_eff [OF r] confined_fields [OF confined_modalElem [OF r]]
    have "\<not> notCalled (modalMemo t)" using f(5) by auto
    then show ?thesis using f(4,10) by simp
  qed
  have 4: "fired t = fired s \<and> (timers t = timers s \<or> timers t = timers s @ created s) \<and>
        (accepts E (opts (picoModal a w)) \<longrightarrow> t = s)"
    if r: "iface_show E s = (Inl e, t) \<or> close E s = (Inl e, t)" for e t
  proof (cases "modalElemVar s")
    case False
    then show ?thesis using r i by (auto simp add: destroyed_calls)
  next
    case True
    from r show ?thesis
    proof
      assume a: "iface_show E s = (Inl e, t)"
      from i True show ?thesis
      proof (cases rule: iface_show_run [where E = E])
        case (ok u h m)
        then show ?thesis using a by simp
      next
        case (threw u)
        then show ?thesis using a o by auto
      qed
    next
      assume a: "close E s = (Inl e, t)"
      from i True show ?thesis
      proof (cases rule: close_run [where E = E])
        case (ok u h m)
        then show ?thesis using a by simp
      next
        case (threw u)
        then show ?thesis using a o by auto
      qed
    qed
  qed
  have 5: "afterShowEvent (snd (step E (AfterShow c) s)) = afterShowEvent s @ [c]"
    "afterCloseEvent (snd (step E (AfterClose c) s)) = afterCloseEvent s @ [c]"
    "afterCreateEvent (snd (step E (AfterCreate c) s)) = afterCreateEvent s @ [c]"
    by (simp_all add: snd_returnIface watch_def)
  show ?thesis
    unfolding Let_def s_def [symmetric] using 1 2 3 4 5 by blast
qed

text \<open>C3 with one callback registered on each of the three channels.\<close>

theorem observers_scheduled_once_witness:
  "fst (iface_show sample_engine
      (run sample_engine [AfterShow 7, AfterCreate 3, AfterClose 5] (picoModal (AStr ''Hi'') empty_page))) =
     Inr Facade \<and>
   timers (snd (iface_show sample_engine
      (run sample_engine [AfterShow 7, AfterCreate 3, AfterClose 5] (picoModal (AStr ''Hi'') empty_page)))) =
     [(3, Facade), (7, Facade)] \<and>
   fired (snd (iface_show sample_engine
      (run sample_engine [AfterShow 7, AfterCreate 3, AfterClose 5] (picoModal (AStr ''Hi'') empty_page)))) = [] \<and>
   fst (close sample_engine
      (run sample_engine [AfterShow 7, AfterCreate 3, AfterClose 5] (picoModal (AStr ''Hi'') empty_page))) =
     Inr Undefined \<and>
   timers (snd (close sample_engine
      (run sample_engine [AfterShow 7, AfterCreate 3, AfterClose 5] (picoModal (AStr ''Hi'') empty_page)))) =
     [(3, Facade), (5, Facade)]"
proof -
  define S where "S = run sample_engine [AfterShow 7, AfterCreate 3, AfterClose 5] (picoModal (AStr ''Hi'') empty_page)"
  define T where "T = snd (iface_show sample_engine S)"
  define U where "U = snd (close sample_engine S)"
  have "fst (iface_show sample_engine S) = Inr Facade"
    "fst (close sample_engine S) = Inr Undefined"
    by (simp_all add: S_def eval_defs)
  then have h: "iface_show sample_engine S = (Inr Facade, T)" "close sample_engine S = (Inr Undefined, U)"
    by (simp_all add: T_def U_def prod_eq_iff)
  have e: "timers S = []" "fired S = []" "created S = [(3, Facade)]"
    "afterShowEvent S = [7]" "afterCloseEvent S = [5]"
    by (simp_all add: S_def eval_defs)
  from observers_scheduled_once [of sample_engine "[AfterShow 7, AfterCreate 3, AfterClose 5]" "AStr ''Hi''" empty_page]
  have "timers T = timers S @ created S @ map (\<lambda>c. (c, Facade)) (afterShowEvent S) \<and> fired T = fired S \<and>
      timers U = timers S @ created S @ map (\<lambda>c. (c, Facade)) (afterCloseEvent S)"
    unfolding Let_def S_def [symmetric] using h by blast
  then show ?thesis
    using h unfolding S_def [symmetric] T_def [symmetric] U_def [symmetric] by (simp add: e)
qed

subsection \<open>After destroy\<close>




subsection \<open>The configuration\<close>

text \<open>
  C5 (as amended).  Whatever is done to an instance, its options object keeps the value of
  every key, and each style object of the page is as it was at creation or has had its
  \<open>filter\<close> property written by \<open>stylize\<close> from its \<open>opacity\<close>; a style object with no
  \<open>opacity\<close> is never changed.  \<open>getOption\<close> returns the value of a key that is defined
  and the default otherwise.
\<close>

theorem configuration_frame:
  "let s = run E ops (picoModal a w) in
     opts s = opts (picoModal a w) \<and>
     (\<forall>r. objs s r = objs w r \<or> objs s r = set_filter E (objs w r)) \<and>
     (\<forall>r. map_of (objs w r) ''opacity'' = None \<longrightarrow> objs s r = objs w r) \<and>
     (opt x = Some v \<longrightarrow> getOption x opt d = v) \<and>
     (opt x = None \<longrightarrow> getOption x opt d = d)"
proof -
  have "frame E (picoModal a w) (run E ops (picoModal a w))"
    by (rule frame_run) (rule picoModal_inv)
  then have 1: "opts (run E ops (picoModal a w)) = opts (picoModal a w)"
    and 2: "\<forall>r. objs (run E ops (picoModal a w)) r = objs w r \<or>
       objs (run E ops (picoModal a w)) r = set_filter E (objs w r)"
    by (simp_all add: frame_def picoModal_def)
  have 3: "objs (run E ops (picoModal a w)) r = objs w r"
    if "map_of (objs w r) ''opacity'' = None" for r
    using 2 that by (auto simp add: set_filter_def)
  show ?thesis
    unfolding Let_def using 1 2 3 by (simp add: getOption_def)
qed

text \<open>C5 (as amended) on options that name two style objects of the page.\<close>

theorem configuration_frame_witness:
  "opts (run sample_engine [Show, Close, Destroy]
      (picoModal (AOptions ((plain_options ''Hi'')\<lparr>overlayStyles := Some 0, modalStyles := Some 1\<rparr>))
        (page_with [(''opacity'', SNum (Num 1))]))) =
     (plain_options ''Hi'')\<lparr>overlayStyles := Some 0, modalStyles := Some 1\<rparr> \<and>
   map_of (objs (page_with [(''opacity'', SNum (Num 1))]) 1) ''opacity'' = None \<and>
   objs (run sample_engine [Show, Close, Destroy]
      (picoModal (AOptions ((plain_options ''Hi'')\<lparr>overlayStyles := Some 0, modalStyles := Some 1\<rparr>))
        (page_with [(''opacity'', SNum (Num 1))]))) 1 = [] \<and>
   overlayClose ((plain_options ''Hi'')\<lparr>overlayClose := Some False\<rparr>) = Some False \<and>
   getOption ((plain_options ''Hi'')\<lparr>overlayClose := Some False\<rparr>) overlayClose True = False \<and>
   closeButton (plain_options ''Hi'') = None \<and>
   getOption (plain_options ''Hi'') closeButton True = True"
proof -
  let ?a = "AOptions ((plain_options ''Hi'')\<lparr>overlayStyles := Some 0, modalStyles := Some 1\<rparr>)"
  let ?w = "page_with [(''opacity'', SNum (Num 1))]"
  have h: "map_of (objs ?w 1) ''opacity'' = None" "objs ?w 1 = []"
    "opts (picoModal ?a ?w) = (plain_options ''Hi'')\<lparr>overlayStyles := Some 0, modalStyles := Some 1\<rparr>"
    "overlayClose ((plain_options ''Hi'')\<lparr>overlayClose := Some False\<rparr>) = Some False"
    "closeButton (plain_options ''Hi'') = None"
    by (simp_all add: page_with_def picoModal_def plain_options_def)
  show ?thesis
    using configuration_frame [of sample_engine "[Show, Close, Destroy]" ?a ?w overlayClose
        "(plain_options ''Hi'')\<lparr>overlayClose := Some False\<rparr>" False True]
      configuration_frame [of sample_engine "[Show, Close, Destroy]" ?a ?w closeButton
        "plain_options ''Hi''" True True] h
    unfolding Let_def by metis
qed

text \<open>
  C5 as stated fails: \<open>show()\<close> on options whose \<open>overlayStyles\<close> is \<open>{opacity: 1}\<close>
  leaves that very object with a \<open>filter\<close> property it did not have.
\<close>

theorem stylize_writes_filter_into_options:
  "objs (run sample_engine [Show]
      (picoModal (AOptions ((plain_options ''Hi'')\<lparr>overlayStyles := Some 0\<rparr>))
        (page_with [(''opacity'', SNum (Num 1))]))) 0 =
     [(''opacity'', SNum (Num 1)), (''filter'', SStr ''alpha(opacity=100)'')] \<and>
   objs (picoModal (AOptions ((plain_options ''Hi'')\<lparr>overlayStyles := Some 0\<rparr>))
        (page_with [(''opacity'', SNum (Num 1))])) 0 =
     [(''opacity'', SNum (Num 1))]"
  by (simp add: eval_defs)

subsection \<open>Clicks on the overlay\<close>



subsection \<open>The close button\<close>




subsection \<open>Width of the content box\<close>






subsection \<open>Return values of the element interface\<close>




subsection \<open>The accessor of the close button\<close>

text \<open>
  C10.  With \<open>closeButton\<close> false the public accessor \<open>closeElem()\<close> throws a TypeError
  in every state of the instance.  With \<open>closeButton\<close> true or not set it returns an
  element in every state, unless \<open>appendChild\<close> refuses the content or the markup of the
  button: the accessor then throws that HierarchyRequestError.
\<close>

theorem closeElem_accessor_fails_when_disabled:
  "let s = run E ops (picoModal a w) in
     (closeButton (opts (picoModal a w)) = Some False \<longrightarrow>
        fst (step E CloseElem s) = Inl TypeError) \<and>
     (closeButton (opts (picoModal a w)) \<noteq> Some False \<longrightarrow>
        (\<exists>c. fst (step E CloseElem s) = Inr (Element c)) \<or>
        fst (step E CloseElem s) = Inl HierarchyRequestError \<and>
        \<not> accepts E (opts (picoModal a w)))"
proof -
  define s where "s = run E ops (picoModal a w)"
  have i: "inv s" unfolding s_def by (rule reachable_inv)
  have o: "opts s = opts (picoModal a w)" unfolding s_def by (rule reachable_opts)
  have en: "getOption (opts s) closeButton True \<longleftrightarrow>
      closeButton (opts (picoModal a w)) \<noteq> Some False"
    unfolding o by (cases "closeButton (opts (picoModal a w))") (simp_all add: getOption_def)
  obtain r t where c: "closeElem E s = (r, t)" by (cases "closeElem E s")
  note f = closeElem_eff [OF i c] confined_fields [OF confined_closeElem [OF i c]]
  have it: "inv t" using closeElem_inv [OF i, of E] c by simp
  have 1: "fst (step E CloseElem s) = Inl TypeError" if d: "\<not> getOption (opts s) closeButton True"
  proof -
    have u: "result (closeMemo s) = Undefined"
      using i d by (rule inv_close_off)
    have b: "buildClose E (modalElem E) t = (Inr Undefined, t)" if "opts t = opts s" for t
      using d that by (intro buildClose_off) simp
    have "fst (closeElem E s) = Inr Undefined"
      using u b [of "closeMemo_update (\<lambda>m. m\<lparr>runs := Suc (runs m)\<rparr>) s"]
      by (simp add: closeElem_def memoize_def)
    then have "r = Inr Undefined" using c by simp
    then show ?thesis
      using c by (simp add: buildElemAccessor_def and_then_def throw_def)
  qed
  have 2: "(\<exists>k. fst (step E CloseElem s) = Inr (Element k)) \<or>
        fst (step E CloseElem s) = Inl HierarchyRequestError \<and>
        \<not> accepts E (opts (picoModal a w))"
    if e: "getOption (opts s) closeButton True"
  proof (cases "notCalled (closeMemo t)")
    case True
    then show ?thesis using f(7) c o by (simp add: buildElemAccessor_def and_then_def)
  next
    case False
    have et: "getOption (opts t) closeButton True" using e f(12) by simp
    obtain m k where "result (closeMemo t) = Handle k"
      using it False et by (rule inv_close_called)
    then show ?thesis
      using c f(6) False by (simp add: buildElemAccessor_def and_then_def ret_def)
  qed
  show ?thesis
    unfolding Let_def s_def [symmetric] using 1 2 en by blast
qed

text \<open>C10 with \<open>closeButton\<close> false, and with \<open>closeButton\<close> not set.\<close>

theorem closeElem_accessor_fails_when_disabled_witness:
  "closeButton (opts (picoModal (AOptions ((plain_options ''Hi'')\<lparr>closeButton := Some False\<rparr>)) empty_page)) =
     Some False \<and>
   fst (step sample_engine CloseElem (run sample_engine [Show]
      (picoModal (AOptions ((plain_options ''Hi'')\<lparr>closeButton := Some False\<rparr>)) empty_page))) =
     Inl TypeError \<and>
   closeButton (opts (picoModal (AStr ''Hi'') empty_page)) \<noteq> Some False \<and>
   accepts sample_engine (opts (picoModal (AStr ''Hi'') empty_page)) \<and>
   (\<exists>c. fst (step sample_engine CloseElem (run sample_engine [Show] (picoModal (AStr ''Hi'') empty_page))) =
      Inr (Element c))"
proof -
  let ?a = "AOptions ((plain_options ''Hi'')\<lparr>closeButton := Some False\<rparr>)"
  have o: "closeButton (opts (picoModal ?a empty_page)) = Some False"
    "closeButton (opts (picoModal (AStr ''Hi'') empty_page)) \<noteq> Some False"
    by (simp_all add: picoModal_def plain_options_def)
  have a: "accepts sample_engine (opts (picoModal (AStr ''Hi'') empty_page))" by simp
  show ?thesis
    using closeElem_accessor_fails_when_disabled [of sample_engine "[Show]" ?a empty_page]
      closeElem_accessor_fails_when_disabled [of sample_engine "[Show]" "AStr ''Hi''" empty_page] o a
    unfolding Let_def by blast
qed

end
